theory Spec2Isabelle
  imports Complex_Main
begin

section \<open>Numbers\<close>

text \<open>
  A TypeScript \<^verbatim>\<open>number\<close> that holds a coordinate, an angle or an altitude is a real here:
  the arithmetic of the source is read as exact arithmetic. Rounding enters in one place, the
  round trip through the projection, where the rounded operations are parameters.
  The two accumulators \<^verbatim>\<open>minX\<close> and \<^verbatim>\<open>minY\<close> of the polygon decoder start at
  \<^verbatim>\<open>Infinity\<close>, so they range over the reals extended by that one value.
\<close>

datatype bound = Infinity | Num real

text \<open>\<^verbatim>\<open>Math.min(acc, c)\<close> for an accumulator \<open>acc\<close> and a finite coordinate \<open>c\<close>.\<close>

fun Math_min :: "bound \<Rightarrow> real \<Rightarrow> bound" where
  "Math_min Infinity c = Num c"
| "Math_min (Num a) c = Num (min a c)"

text \<open>\<^verbatim>\<open>Math.max(acc, c)\<close>; the accumulators \<^verbatim>\<open>maxX\<close>, \<^verbatim>\<open>maxY\<close> start at 0 and stay finite.\<close>

definition Math_max :: "real \<Rightarrow> real \<Rightarrow> real" where
  "Math_max a c = max a c"

section \<open>Data model of the VT-json adapter\<close>

type_synonym VTJsonPosition = "real \<times> real"

datatype VTJsonGeometryType = Unknown | Point | LineString | Polygon

text \<open>The values of a \<^verbatim>\<open>ValueMap\<close>: strings, numbers and booleans keyed by name.\<close>

datatype Value = StringValue string | NumberValue real | BooleanValue bool

type_synonym ValueMap = "string \<rightharpoonup> Value"

text \<open>
  \<^verbatim>\<open>geometry: VTJsonPosition[] | VTJsonPosition[][]\<close>: a flat list of positions (point
  features) or a list of paths (line strings, polygon rings).
\<close>

datatype VTJsonGeometry =
    Positions "VTJsonPosition list"
  | Paths "VTJsonPosition list list"

record VTJsonFeatureInterface =
  geometry :: VTJsonGeometry
  id' :: string
  tags :: ValueMap
  type' :: VTJsonGeometryType

text \<open>
  Of the tile, \<^verbatim>\<open>process\<close> reads \<^verbatim>\<open>features\<close> and \<^verbatim>\<open>layer\<close> only; the statistics fields
  (\<^verbatim>\<open>minX\<close>, \<^verbatim>\<open>numPoints\<close>, \<^verbatim>\<open>source\<close>, ...) are left out of the record.
\<close>

record VTJsonTileInterface =
  features :: "VTJsonFeatureInterface list"
  tile_x :: nat
  tile_y :: nat
  tile_z :: nat
  layer :: string

record TileKey =
  row :: nat
  column :: nat
  level :: nat

record GeoBox =
  south :: real
  west :: real
  north :: real
  east :: real
  minAltitude :: "real option"
  maxAltitude :: "real option"

record Vector3 =
  vec_x :: real
  vec_y :: real
  vec_z :: real

record ILineGeometry =
  line_positions :: "Vector3 list"

record IRing =
  positions :: "Vector3 list"
  outlines :: "bool list"

record IPolygonGeometry =
  rings :: "IRing list"

text \<open>The evaluation environment handed to the processor: its entries.\<close>

datatype MapEnv = MapEnv ValueMap

text \<open>
  The geometry processor is an interface implemented elsewhere. A run of \<^verbatim>\<open>process\<close> is
  observed through the calls it makes, in order: each constructor is one method of
  \<^verbatim>\<open>IGeometryProcessor\<close> with its four arguments (layer, geometry, environment, level).
\<close>

datatype ProcessorCall =
    processPointFeature string "Vector3 list" MapEnv nat
  | processLineFeature string "ILineGeometry list" MapEnv nat
  | processPolygonFeature string "IPolygonGeometry list" MapEnv nat

section \<open>The decoder\<close>

fun convertGeometryType :: "VTJsonGeometryType \<Rightarrow> string" where
  "convertGeometryType Point = ''point''"
| "convertGeometryType LineString = ''line''"
| "convertGeometryType Polygon = ''polygon''"
| "convertGeometryType _ = ''unknown''"

text \<open>
  \<^verbatim>\<open>new MapEnv({...feature.tags, $layer, $geometryType, $level})\<close>: the feature's tags,
  overridden by the three synthesized keys.
\<close>

definition makeEnv :: "VTJsonTileInterface \<Rightarrow> TileKey \<Rightarrow> VTJsonFeatureInterface \<Rightarrow> MapEnv" where
  "makeEnv tile tileKey feature =
     MapEnv ((tags feature)
       (''$layer'' \<mapsto> StringValue (layer tile),
        ''$geometryType'' \<mapsto> StringValue (convertGeometryType (type' feature)),
        ''$level'' \<mapsto> NumberValue (real (level tileKey))))"

text \<open>
  The locals of the inner loop of the polygon case: the four bounding-box accumulators and
  the ring under construction.
\<close>

record ring_state =
  minX :: bound
  minY :: bound
  maxX :: real
  maxY :: real
  ring :: IRing

definition ring_init :: ring_state where
  "ring_init = \<lparr>minX = Infinity, minY = Infinity, maxX = 0, maxY = 0,
                ring = \<lparr>positions = [], outlines = []\<rparr>\<rparr>"

text \<open>
  The loop \<^verbatim>\<open>for (let coordIdx = 0; coordIdx < outline.length; ++coordIdx)\<close>.
  \<open>ringsLength\<close> is \<^verbatim>\<open>polygon.rings.length\<close>, which the loop does not change.
  The index \<^verbatim>\<open>(coordIdx + 1) % outline.length\<close> is in range whenever the body runs.
\<close>

function ring_loop ::
  "real \<Rightarrow> real \<Rightarrow> real \<Rightarrow> real \<Rightarrow> real \<Rightarrow> nat \<Rightarrow> VTJsonPosition list \<Rightarrow> nat \<Rightarrow> ring_state \<Rightarrow> ring_state"
where
  "ring_loop extent scale top' left R ringsLength outline coordIdx s =
     (if coordIdx < length outline then
        let currX = fst (outline ! coordIdx);
            currY = snd (outline ! coordIdx);
            nextX = fst (outline ! ((coordIdx + 1) mod length outline));
            nextY = snd (outline ! ((coordIdx + 1) mod length outline));
            s1 = (if ringsLength > 0
                  then s\<lparr>minX := Math_min (minX s) currX,
                         minY := Math_min (minY s) currY,
                         maxX := Math_max (maxX s) currX,
                         maxY := Math_max (maxY s) currY\<rparr>
                  else s);
            position = \<lparr>vec_x = ((left + currX) / scale) * R,
                        vec_y = ((top' + currY) / scale) * R,
                        vec_z = 0\<rparr>;
            s2 = s1\<lparr>ring :=
                   \<lparr>positions = positions (ring s1) @ [position],
                    outlines = outlines (ring s1) @
                      [\<not> ((currX = 0 \<and> nextX = 0) \<or>
                           (currX = extent \<and> nextX = extent) \<or>
                           (currY = 0 \<and> nextY = 0) \<or>
                           (currY = extent \<and> nextY = extent))]\<rparr>\<rparr>
        in ring_loop extent scale top' left R ringsLength outline (coordIdx + 1) s2
      else s)"
  by pat_completeness auto
termination
  by (relation "measure (\<lambda>(extent, scale, top', left, R, ringsLength, outline, coordIdx, s).
        length outline - coordIdx)") auto

declare ring_loop.simps [simp del]

text \<open>
  The loop \<^verbatim>\<open>for (const outline of feature.geometry)\<close> of the polygon case, with its
  \<^verbatim>\<open>break\<close>. The argument \<open>rs\<close> is \<^verbatim>\<open>polygon.rings\<close>; the result is
  \<^verbatim>\<open>(polygonValid, polygon.rings)\<close> when the loop is left.
  The reset of the accumulators in the \<^verbatim>\<open>else\<close> branch writes locals that the next
  iteration declares afresh, so it has no counterpart here.
\<close>

fun rings_loop ::
  "real \<Rightarrow> real \<Rightarrow> real \<Rightarrow> real \<Rightarrow> real \<Rightarrow> VTJsonPosition list list \<Rightarrow> IRing list \<Rightarrow> bool \<times> IRing list"
where
  "rings_loop extent scale top' left R [] rs = (True, rs)"
| "rings_loop extent scale top' left R (outline # rest) rs =
     (let s = ring_loop extent scale top' left R (length rs) outline 0 ring_init in
      if minX s = Num 0 \<and> minY s = Num 0 \<and> maxX s = extent \<and> maxY s = extent
      then (False, rs)
      else rings_loop extent scale top' left R rest (rs @ [ring s]))"

text \<open>
  The loop \<^verbatim>\<open>for (const pointGeometry of feature.geometry)\<close> of the point case: one call
  of the processor per coordinate pair, in order.
\<close>

fun point_loop ::
  "real \<Rightarrow> real \<Rightarrow> real \<Rightarrow> real \<Rightarrow> VTJsonTileInterface \<Rightarrow> TileKey \<Rightarrow> MapEnv \<Rightarrow>
   VTJsonPosition list \<Rightarrow> ProcessorCall list"
where
  "point_loop scale top' left R tile tileKey env [] = []"
| "point_loop scale top' left R tile tileKey env (pointGeometry # rest) =
     (let x = fst pointGeometry;
          y = snd pointGeometry;
          position = \<lparr>vec_x = ((left + x) / scale) * R,
                      vec_y = ((top' + y) / scale) * R,
                      vec_z = 0\<rparr>
      in processPointFeature (layer tile) [position] env (level tileKey) #
         point_loop scale top' left R tile tileKey env rest)"

text \<open>
  The loop \<^verbatim>\<open>for (const [x, y] of lineGeometry)\<close> of the line case, which pushes one
  position per coordinate pair onto \<^verbatim>\<open>line.positions\<close>.
\<close>

fun line_positions_loop ::
  "real \<Rightarrow> real \<Rightarrow> real \<Rightarrow> real \<Rightarrow> VTJsonPosition list \<Rightarrow> ILineGeometry \<Rightarrow> ILineGeometry"
where
  "line_positions_loop scale top' left R [] line = line"
| "line_positions_loop scale top' left R ((x, y) # rest) line =
     (let position = \<lparr>vec_x = ((left + x) / scale) * R,
                      vec_y = ((top' + y) / scale) * R,
                      vec_z = 0\<rparr>
      in line_positions_loop scale top' left R rest
           (line\<lparr>line_positions := line_positions line @ [position]\<rparr>))"

text \<open>The loop \<^verbatim>\<open>for (const lineGeometry of feature.geometry)\<close>: one call per path.\<close>

fun line_loop ::
  "real \<Rightarrow> real \<Rightarrow> real \<Rightarrow> real \<Rightarrow> VTJsonTileInterface \<Rightarrow> TileKey \<Rightarrow> MapEnv \<Rightarrow>
   VTJsonPosition list list \<Rightarrow> ProcessorCall list"
where
  "line_loop scale top' left R tile tileKey env [] = []"
| "line_loop scale top' left R tile tileKey env (lineGeometry # rest) =
     (let line = line_positions_loop scale top' left R lineGeometry \<lparr>line_positions = []\<rparr>
      in processLineFeature (layer tile) [line] env (level tileKey) #
         line_loop scale top' left R tile tileKey env rest)"

text \<open>
  The body of the loop over the features: the calls made for one feature.
  The source casts \<^verbatim>\<open>feature.geometry\<close> by the type tag without a check. A geometry whose
  nesting does not fit the tag is outside the model (\<open>None\<close>): what untyped JavaScript does
  with it is not modelled.
\<close>

definition process_feature ::
  "real \<Rightarrow> real \<Rightarrow> real \<Rightarrow> real \<Rightarrow> real \<Rightarrow> VTJsonTileInterface \<Rightarrow> TileKey \<Rightarrow>
   VTJsonFeatureInterface \<Rightarrow> ProcessorCall list option"
where
  "process_feature extent scale top' left R tile tileKey feature =
     (let env = makeEnv tile tileKey feature in
      case type' feature of
        Point \<Rightarrow>
          (case geometry feature of
             Positions ps \<Rightarrow> Some (point_loop scale top' left R tile tileKey env ps)
           | Paths _ \<Rightarrow> None)
      | LineString \<Rightarrow>
          (case geometry feature of
             Paths ls \<Rightarrow> Some (line_loop scale top' left R tile tileKey env ls)
           | Positions _ \<Rightarrow> None)
      | Polygon \<Rightarrow>
          (case geometry feature of
             Paths os \<Rightarrow>
               (let (polygonValid, rs) = rings_loop extent scale top' left R os [] in
                if polygonValid
                then Some [processPolygonFeature (layer tile) [\<lparr>rings = rs\<rparr>] env (level tileKey)]
                else Some [])
           | Positions _ \<Rightarrow> None)
      | Unknown \<Rightarrow> Some [])"

text \<open>
  The loop over \<^verbatim>\<open>tile.features\<close>: the calls of the features, in input order; \<open>None\<close>
  when a feature is outside the model.
\<close>

fun process_features ::
  "real \<Rightarrow> real \<Rightarrow> real \<Rightarrow> real \<Rightarrow> real \<Rightarrow> VTJsonTileInterface \<Rightarrow> TileKey \<Rightarrow>
   VTJsonFeatureInterface list \<Rightarrow> ProcessorCall list option"
where
  "process_features extent scale top' left R tile tileKey [] = Some []"
| "process_features extent scale top' left R tile tileKey (feature # rest) =
     (case process_feature extent scale top' left R tile tileKey feature of
        None \<Rightarrow> None
      | Some calls \<Rightarrow>
          (case process_features extent scale top' left R tile tileKey rest of
             None \<Rightarrow> None
           | Some calls' \<Rightarrow> Some (calls @ calls')))"

text \<open>
  \<^verbatim>\<open>process(tile, tileKey, geoBox)\<close>. Two names it uses come from other modules and are
  parameters here: \<open>lat2tile\<close> (\<^verbatim>\<open>OmvUtils.lat2tile\<close>, latitude and zoom to tile row) and
  \<open>R\<close> (\<^verbatim>\<open>EarthConstants.EQUATORIAL_CIRCUMFERENCE\<close>).
\<close>

definition process ::
  "(real \<Rightarrow> real \<Rightarrow> real) \<Rightarrow> real \<Rightarrow> VTJsonTileInterface \<Rightarrow> TileKey \<Rightarrow> GeoBox \<Rightarrow>
   ProcessorCall list option"
where
  "process lat2tile R tile tileKey geoBox =
     (let extent = 4096;
          N = log 2 extent;
          scale = 2 powr (real (level tileKey) + N);
          top' = lat2tile (north geoBox) (real (level tileKey) + N);
          left = ((west geoBox + 180) / 360) * scale
      in process_features extent scale top' left R tile tileKey (features tile))"

text \<open>
  \<^verbatim>\<open>canProcess(data: ArrayBufferLike | {})\<close>. The argument is a raw buffer or an object; an
  object is given by its property reads, \<open>None\<close> standing for \<^verbatim>\<open>undefined\<close> (an absent
  property and a property holding \<^verbatim>\<open>undefined\<close> read the same).
\<close>

datatype ('b, 'v) TileLikeData =
    ArrayBufferLike 'b
  | Object "string \<Rightarrow> 'v option"

text \<open>
  Modelled from the spec: \<^verbatim>\<open>OmvUtils.isArrayBufferLike\<close>, a function of another module, is
  the test whether the input is a raw binary buffer.
\<close>

fun isArrayBufferLike :: "('b, 'v) TileLikeData \<Rightarrow> bool" where
  "isArrayBufferLike (ArrayBufferLike _) = True"
| "isArrayBufferLike (Object _) = False"

text \<open>A property read \<^verbatim>\<open>data.name\<close>; a buffer has none of the tile's properties.\<close>

fun getProperty :: "('b, 'v) TileLikeData \<Rightarrow> string \<Rightarrow> 'v option" where
  "getProperty (ArrayBufferLike _) name = None"
| "getProperty (Object obj) name = obj name"

definition canProcess :: "('b, 'v) TileLikeData \<Rightarrow> bool" where
  "canProcess data =
     (if isArrayBufferLike data then False
      else if getProperty data ''features'' = None \<or>
              getProperty data ''source'' = None \<or>
              getProperty data ''x'' = None \<or>
              getProperty data ''y'' = None \<or>
              getProperty data ''z'' = None
      then False
      else True)"

section \<open>The planar (identity) projection\<close>

record GeoCoordinates =
  latitude :: real
  longitude :: real
  altitude :: "real option"

record Box3Like =
  box_min :: Vector3
  box_max :: Vector3

record OrientedBox3Like =
  xAxis :: Vector3
  yAxis :: Vector3
  zAxis :: Vector3
  position :: Vector3
  extents :: Vector3

text \<open>\<^verbatim>\<open>WorldBoundingBox extends Box3Like | OrientedBox3Like\<close>: the two result shapes.\<close>

datatype WorldBoundingBox = Box3 Box3Like | OrientedBox3 OrientedBox3Like

definition DEG2RAD :: real where
  "DEG2RAD = pi / 180"

text \<open>\<^verbatim>\<open>Number.EPSILON\<close>, the gap between 1 and the next double.\<close>

definition Number_EPSILON :: real where
  "Number_EPSILON = 1 / 2 ^ 52"

text \<open>
  \<^verbatim>\<open>projectPoint(geoPoint, result?)\<close>. All three fields of the result are written, whether
  the caller passed it or not; \<^verbatim>\<open>geoPoint.altitude || 0\<close> is 0 for an absent altitude.
\<close>

definition projectPoint :: "GeoCoordinates \<Rightarrow> Vector3 option \<Rightarrow> Vector3" where
  "projectPoint geoPoint result =
     (let result = (case result of None \<Rightarrow> \<lparr>vec_x = 0, vec_y = 0, vec_z = 0\<rparr> | Some r \<Rightarrow> r)
      in result\<lparr>vec_x := longitude geoPoint * DEG2RAD,
                vec_y := latitude geoPoint * DEG2RAD,
                vec_z := (case altitude geoPoint of None \<Rightarrow> 0 | Some a \<Rightarrow> a)\<rparr>)"

text \<open>
  Modelled from the spec: \<^verbatim>\<open>GeoCoordinates.fromRadians\<close>, a function of another module,
  converts latitude and longitude from radians to degrees and keeps the altitude it is given.
\<close>

definition fromRadians :: "real \<Rightarrow> real \<Rightarrow> real \<Rightarrow> GeoCoordinates" where
  "fromRadians lat lon alt =
     \<lparr>latitude = lat * (180 / pi), longitude = lon * (180 / pi), altitude = Some alt\<rparr>"

definition unprojectPoint :: "Vector3 \<Rightarrow> GeoCoordinates" where
  "unprojectPoint worldPoint =
     (let geoPoint = fromRadians (vec_y worldPoint) (vec_x worldPoint) (vec_z worldPoint)
      in geoPoint)"

text \<open>
  The same two functions with the rounding of doubles made explicit. A multiplication that
  does not overflow returns the exact product with a relative error of at most \<open>2^-53\<close>
  and, near underflow, an absolute error of at most \<open>2^-1075\<close>; \<open>mul\<close> stands for any
  such operation on products of size up to 1000, which covers the angles at hand. The
  constants \<^verbatim>\<open>Math.PI / 180\<close> and \<^verbatim>\<open>180 / Math.PI\<close> are each a rounded \<open>pi\<close> followed by a
  rounded division, hence within a relative error of \<open>3 * 2^-53\<close> of the exact value.
\<close>

definition unit_roundoff :: real where
  "unit_roundoff = 1 / 2 ^ 53"

definition underflow_unit :: real where
  "underflow_unit = 1 / 2 ^ 1075"

definition rounded_mul :: "(real \<Rightarrow> real \<Rightarrow> real) \<Rightarrow> bool" where
  "rounded_mul mul =
     (\<forall>a b. \<bar>a * b\<bar> \<le> 1000 \<longrightarrow>
        \<bar>mul a b - a * b\<bar> \<le> unit_roundoff * \<bar>a * b\<bar> + underflow_unit)"

definition rounded_const :: "real \<Rightarrow> real \<Rightarrow> bool" where
  "rounded_const c v = (\<bar>c - v\<bar> \<le> 3 * unit_roundoff * v)"

definition projectPoint_rounded ::
  "(real \<Rightarrow> real \<Rightarrow> real) \<Rightarrow> real \<Rightarrow> GeoCoordinates \<Rightarrow> Vector3" where
  "projectPoint_rounded mul deg2rad geoPoint =
     \<lparr>vec_x = mul (longitude geoPoint) deg2rad,
      vec_y = mul (latitude geoPoint) deg2rad,
      vec_z = (case altitude geoPoint of None \<Rightarrow> 0 | Some a \<Rightarrow> a)\<rparr>"

text \<open>
  Modelled from the spec: the conversion of \<^verbatim>\<open>GeoCoordinates.fromRadians\<close> as one rounded
  multiplication by the constant \<open>rad2deg\<close>.
\<close>

definition unprojectPoint_rounded ::
  "(real \<Rightarrow> real \<Rightarrow> real) \<Rightarrow> real \<Rightarrow> Vector3 \<Rightarrow> GeoCoordinates" where
  "unprojectPoint_rounded mul rad2deg worldPoint =
     \<lparr>latitude = mul (vec_y worldPoint) rad2deg,
      longitude = mul (vec_x worldPoint) rad2deg,
      altitude = Some (vec_z worldPoint)\<rparr>"

text \<open>
  \<^verbatim>\<open>projectBox(geoBox, result?)\<close>. \<open>newEmptyBox3\<close> is the value of
  \<^verbatim>\<open>MathUtils.newEmptyBox3()\<close>, a parameter; \<^verbatim>\<open>isBox3Like\<close> and \<^verbatim>\<open>isOrientedBox3Like\<close>
  tell the two shapes apart.
\<close>

definition projectBox :: "Box3Like \<Rightarrow> GeoBox \<Rightarrow> WorldBoundingBox option \<Rightarrow> WorldBoundingBox" where
  "projectBox newEmptyBox3 geoBox result =
     (let result = (case result of None \<Rightarrow> Box3 newEmptyBox3 | Some r \<Rightarrow> r);
          min' = projectPoint
                   \<lparr>latitude = south geoBox, longitude = west geoBox,
                    altitude = minAltitude geoBox\<rparr> None;
          max' = projectPoint
                   \<lparr>latitude = north geoBox, longitude = east geoBox,
                    altitude = maxAltitude geoBox\<rparr> None
      in case result of
           Box3 b \<Rightarrow>
             Box3 (b\<lparr>box_min := (box_min b)\<lparr>vec_x := vec_x min', vec_y := vec_y min',
                                            vec_z := vec_z min'\<rparr>,
                     box_max := (box_max b)\<lparr>vec_x := vec_x max', vec_y := vec_y max',
                                            vec_z := vec_z max'\<rparr>\<rparr>)
         | OrientedBox3 ob \<Rightarrow>
             OrientedBox3 (ob\<lparr>
               xAxis := (xAxis ob)\<lparr>vec_x := 1, vec_y := 0, vec_z := 0\<rparr>,
               yAxis := (yAxis ob)\<lparr>vec_x := 0, vec_y := 1, vec_z := 0\<rparr>,
               zAxis := (zAxis ob)\<lparr>vec_x := 0, vec_y := 0, vec_z := 1\<rparr>,
               position := (position ob)\<lparr>vec_x := (vec_x min' + vec_x max') * 0.5,
                                          vec_y := (vec_y min' + vec_y max') * 0.5,
                                          vec_z := (vec_z min' + vec_z max') * 0.5\<rparr>,
               extents := (extents ob)\<lparr>vec_x := (vec_x max' - vec_x min') * 0.5,
                                        vec_y := (vec_y max' - vec_y min') * 0.5,
                                        vec_z := Math_max Number_EPSILON
                                                   ((vec_z max' - vec_z min') * 0.5)\<rparr>\<rparr>))"

text \<open>
  \<^verbatim>\<open>scalePointToSurface(worldPoint)\<close> writes through the reference it is given. Objects
  live in a store, from references to vectors; the function gets a reference and returns a
  reference and the store after the write.
\<close>

type_synonym ref = nat

type_synonym store = "ref \<Rightarrow> Vector3"

definition scalePointToSurface :: "store \<Rightarrow> ref \<Rightarrow> ref \<times> store" where
  "scalePointToSurface h worldPoint =
     (worldPoint, h(worldPoint := (h worldPoint)\<lparr>vec_z := 0\<rparr>))"

section \<open>Notions of the specification\<close>

text \<open>
  The world-space position of a tile-local coordinate pair, as the specification writes it:
  \<open>scale = 2^(level + log2 extent)\<close>, \<open>left = ((west + 180) / 360) * scale\<close>,
  \<open>top = lat2tile(north, level + log2 extent)\<close>, with \<open>extent = 4096\<close>.
\<close>

definition spec_scale :: "TileKey \<Rightarrow> real" where
  "spec_scale tileKey = 2 powr (real (level tileKey) + log 2 4096)"

definition spec_left :: "TileKey \<Rightarrow> GeoBox \<Rightarrow> real" where
  "spec_left tileKey geoBox = ((west geoBox + 180) / 360) * spec_scale tileKey"

definition spec_top :: "(real \<Rightarrow> real \<Rightarrow> real) \<Rightarrow> TileKey \<Rightarrow> GeoBox \<Rightarrow> real" where
  "spec_top lat2tile tileKey geoBox = lat2tile (north geoBox) (real (level tileKey) + log 2 4096)"

definition spec_world :: "real \<Rightarrow> real \<Rightarrow> real \<Rightarrow> real \<Rightarrow> VTJsonPosition \<Rightarrow> Vector3" where
  "spec_world scale top' left R p =
     \<lparr>vec_x = ((left + fst p) / scale) * R,
      vec_y = ((top' + snd p) / scale) * R,
      vec_z = 0\<rparr>"

text \<open>The same position, from the arguments of \<^verbatim>\<open>process\<close>.\<close>

definition spec_position ::
  "(real \<Rightarrow> real \<Rightarrow> real) \<Rightarrow> real \<Rightarrow> TileKey \<Rightarrow> GeoBox \<Rightarrow> VTJsonPosition \<Rightarrow> Vector3" where
  "spec_position lat2tile R tileKey geoBox p =
     (let scale = spec_scale tileKey;
          left = spec_left tileKey geoBox;
          top' = spec_top lat2tile tileKey geoBox
      in \<lparr>vec_x = ((left + fst p) / scale) * R,
          vec_y = ((top' + snd p) / scale) * R,
          vec_z = 0\<rparr>)"

text \<open>
  An edge lies on a tile border when both endpoints have \<open>x = 0\<close>, or both \<open>x = extent\<close>,
  or both \<open>y = 0\<close>, or both \<open>y = extent\<close>.
\<close>

definition spec_on_border :: "real \<Rightarrow> VTJsonPosition \<Rightarrow> VTJsonPosition \<Rightarrow> bool" where
  "spec_on_border extent p q =
     ((fst p = 0 \<and> fst q = 0) \<or> (fst p = extent \<and> fst q = extent) \<or>
      (snd p = 0 \<and> snd q = 0) \<or> (snd p = extent \<and> snd q = extent))"

text \<open>The outline flag of edge \<open>i\<close> of a ring: the edge from vertex \<open>i\<close> to vertex \<open>(i + 1) mod n\<close>.\<close>

definition spec_outline_flag :: "real \<Rightarrow> VTJsonPosition list \<Rightarrow> nat \<Rightarrow> bool" where
  "spec_outline_flag extent outline i =
     (\<not> spec_on_border extent (outline ! i) (outline ! ((i + 1) mod length outline)))"

text \<open>The tile-local bounding box \<open>(minX, minY, maxX, maxY)\<close> of a ring; an empty ring has none.\<close>

definition spec_ring_bbox :: "VTJsonPosition list \<Rightarrow> (real \<times> real \<times> real \<times> real) option" where
  "spec_ring_bbox outline =
     (if outline = [] then None
      else Some (Min (fst ` set outline), Min (snd ` set outline),
                 Max (fst ` set outline), Max (snd ` set outline)))"

text \<open>Some ring after the first spans the full tile.\<close>

definition spec_discarded :: "real \<Rightarrow> VTJsonPosition list list \<Rightarrow> bool" where
  "spec_discarded extent os =
     (\<exists>k. 1 \<le> k \<and> k < length os \<and> spec_ring_bbox (os ! k) = Some (0, 0, extent, extent))"

text \<open>A decoded ring in closed form: one position and one outline flag per vertex.\<close>

definition spec_ring :: "real \<Rightarrow> real \<Rightarrow> real \<Rightarrow> real \<Rightarrow> real \<Rightarrow> VTJsonPosition list \<Rightarrow> IRing" where
  "spec_ring extent scale top' left R outline =
     \<lparr>positions = map (spec_world scale top' left R) outline,
      outlines = map (spec_outline_flag extent outline) [0..<length outline]\<rparr>"

text \<open>
  The z half-extent of a world box: half the z size of an axis-aligned box, the z component
  of the half-extents of an oriented box.
\<close>

fun spec_z_half_extent :: "WorldBoundingBox \<Rightarrow> real" where
  "spec_z_half_extent (Box3 b) = (vec_z (box_max b) - vec_z (box_min b)) * 0.5"
| "spec_z_half_extent (OrientedBox3 ob) = vec_z (extents ob)"

section \<open>Example inputs\<close>

definition ex_tile :: VTJsonTileInterface where
  "ex_tile = \<lparr>features = [], tile_x = 0, tile_y = 0, tile_z = 0, layer = ''water''\<rparr>"

definition ex_key :: TileKey where
  "ex_key = \<lparr>row = 0, column = 0, level = 0\<rparr>"

text \<open>The ring that runs along the four borders of the tile.\<close>

definition ex_square :: "VTJsonPosition list" where
  "ex_square = [(0, 0), (4096, 0), (4096, 4096), (0, 4096)]"

definition ex_triangle :: "VTJsonPosition list" where
  "ex_triangle = [(10, 10), (20, 10), (10, 20)]"

definition ex_feature :: "VTJsonGeometryType \<Rightarrow> VTJsonGeometry \<Rightarrow> VTJsonFeatureInterface" where
  "ex_feature t g = \<lparr>geometry = g, id' = ''f'', tags = Map.empty, type' = t\<rparr>"

text \<open>A polygon whose second ring spans the tile, and one whose only ring does.\<close>

definition ex_hole_full :: VTJsonFeatureInterface where
  "ex_hole_full = ex_feature Polygon (Paths [ex_triangle, ex_square])"

definition ex_outer_full :: VTJsonFeatureInterface where
  "ex_outer_full = ex_feature Polygon (Paths [ex_square])"

text \<open>A tile key at level 1 and a box whose north-west corner maps to the origin.\<close>

definition ex_key1 :: TileKey where
  "ex_key1 = \<lparr>row = 0, column = 0, level = 1\<rparr>"

definition ex_box :: GeoBox where
  "ex_box = \<lparr>south = 0, west = -180, north = 85, east = 0,
             minAltitude = None, maxAltitude = None\<rparr>"

definition ex_points :: VTJsonFeatureInterface where
  "ex_points = ex_feature Point (Positions [(0, 0), (4096, 2048), (8192, 8192)])"

definition ex_line :: VTJsonFeatureInterface where
  "ex_line = ex_feature LineString (Paths [[(0, 0), (4096, 2048)], [(8192, 8192)]])"

definition ex_sliver :: VTJsonFeatureInterface where
  "ex_sliver = ex_feature Polygon (Paths [[(0, 0), (4096, 2048)]])"

definition ex_unknown :: VTJsonFeatureInterface where
  "ex_unknown = ex_feature Unknown (Paths [ex_square])"

definition ex_tile3 :: VTJsonTileInterface where
  "ex_tile3 = ex_tile\<lparr>features := [ex_points, ex_line, ex_sliver]\<rparr>"

text \<open>Inputs of the projection and of \<^verbatim>\<open>canProcess\<close>.\<close>

definition ex_geo :: GeoCoordinates where
  "ex_geo = \<lparr>latitude = 52, longitude = 13, altitude = None\<rparr>"

text \<open>A multiplication that is off by the full relative error.\<close>

definition ex_mul :: "real \<Rightarrow> real \<Rightarrow> real" where
  "ex_mul a b = a * b * (1 + unit_roundoff)"

definition ex_flat_box :: GeoBox where
  "ex_flat_box = \<lparr>south = 52, west = 13, north = 53, east = 14,
                  minAltitude = Some 100, maxAltitude = Some 100\<rparr>"

definition ex_vec :: Vector3 where
  "ex_vec = \<lparr>vec_x = 7, vec_y = 8, vec_z = 9\<rparr>"

definition ex_box3 :: Box3Like where
  "ex_box3 = \<lparr>box_min = ex_vec, box_max = ex_vec\<rparr>"

definition ex_obox :: OrientedBox3Like where
  "ex_obox = \<lparr>xAxis = ex_vec, yAxis = ex_vec, zAxis = ex_vec, position = ex_vec, extents = ex_vec\<rparr>"

definition ex_store :: store where
  "ex_store = (\<lambda>r. ex_vec)"

definition ex_object :: "string \<Rightarrow> nat option" where
  "ex_object name = (if name \<in> set [''features'', ''source'', ''x'', ''y'', ''z'', ''layer'']
                     then Some 0 else None)"

definition ex_buffer :: "(nat list, nat) TileLikeData" where
  "ex_buffer = ArrayBufferLike [26, 3]"

section \<open>The inner loop in closed form\<close>

lemma ring_loop_ring:
  "ring (ring_loop extent scale top' left R k outline i s) =
     \<lparr>positions = positions (ring s) @ map (spec_world scale top' left R) (drop i outline),
      outlines = outlines (ring s) @ map (spec_outline_flag extent outline) [i..<length outline]\<rparr>"
proof (induction extent scale top' left R k outline i s rule: ring_loop.induct)
  case (1 extent scale top' left R k outline i s)
  show ?case
  proof (cases "i < length outline")
    case True
    have d: "drop i outline = outline ! i # drop (Suc i) outline"
      using True by (simp add: Cons_nth_drop_Suc)
    have u: "[i..<length outline] = i # [Suc i..<length outline]"
      using True by (simp add: upt_conv_Cons)
    show ?thesis
      using True "1.IH"[OF True refl refl refl refl refl refl refl]
      by (subst ring_loop.simps) (simp add: d u Let_def spec_world_def spec_outline_flag_def spec_on_border_def)
  next
    case False
    then show ?thesis by (subst ring_loop.simps) simp
  qed
qed

lemma ring_loop_bbox_first:
  "minX (ring_loop extent scale top' left R 0 outline i s) = minX s \<and>
   minY (ring_loop extent scale top' left R 0 outline i s) = minY s \<and>
   maxX (ring_loop extent scale top' left R 0 outline i s) = maxX s \<and>
   maxY (ring_loop extent scale top' left R 0 outline i s) = maxY s"
proof (induction extent scale top' left R "0::nat" outline i s rule: ring_loop.induct)
  case (1 extent scale top' left R outline i s)
  show ?case
  proof (cases "i < length outline")
    case True
    show ?thesis
      using True "1.hyps"[OF True refl refl refl refl refl refl refl]
      by (subst (1 2 3 4) ring_loop.simps) (simp add: Let_def)
  next
    case False
    then show ?thesis by (subst (1 2 3 4) ring_loop.simps) simp
  qed
qed

lemma ring_loop_bbox_later:
  "0 < k \<Longrightarrow>
   minX (ring_loop extent scale top' left R k outline i s) = foldl Math_min (minX s) (map fst (drop i outline)) \<and>
   minY (ring_loop extent scale top' left R k outline i s) = foldl Math_min (minY s) (map snd (drop i outline)) \<and>
   maxX (ring_loop extent scale top' left R k outline i s) = foldl Math_max (maxX s) (map fst (drop i outline)) \<and>
   maxY (ring_loop extent scale top' left R k outline i s) = foldl Math_max (maxY s) (map snd (drop i outline))"
proof (induction extent scale top' left R k outline i s rule: ring_loop.induct)
  case (1 extent scale top' left R k outline i s)
  show ?case
  proof (cases "i < length outline")
    case True
    have d: "drop i outline = outline ! i # drop (Suc i) outline"
      using True by (simp add: Cons_nth_drop_Suc)
    show ?thesis
      using True "1.IH"[OF True refl refl refl refl refl refl refl] "1.prems"
      by (subst (1 2 3 4) ring_loop.simps) (simp add: Let_def d)
  next
    case False
    then show ?thesis by (subst (1 2 3 4) ring_loop.simps) simp
  qed
qed


section \<open>The accumulated bounding box\<close>

lemma foldl_Math_min_Num:
  "foldl Math_min (Num a) xs = Num (Min (insert a (set xs)))"
proof (induction xs arbitrary: a)
  case Nil
  show ?case by simp
next
  case (Cons x xs)
  have "Min (insert (min a x) (set xs)) = Min (insert a (insert x (set xs)))"
    by (cases "set xs = {}") (simp_all add: min.assoc)
  then show ?case using Cons.IH[of "min a x"] by simp
qed

lemma foldl_Math_min_Infinity:
  "foldl Math_min Infinity xs = (if xs = [] then Infinity else Num (Min (set xs)))"
  by (cases xs) (simp_all add: foldl_Math_min_Num)

lemma foldl_Math_max:
  "foldl Math_max a xs = Max (insert a (set xs))"
proof (induction xs arbitrary: a)
  case Nil
  show ?case by simp
next
  case (Cons x xs)
  have "Max (insert (max a x) (set xs)) = Max (insert a (insert x (set xs)))"
    by (cases "set xs = {}") (simp_all add: max.assoc)
  then show ?case using Cons.IH[of "max a x"] by (simp add: Math_max_def)
qed

lemma Max_insert_0:
  assumes "finite A" "A \<noteq> {}" "Min A = (0::real)"
  shows "Max (insert 0 A) = Max A"
proof -
  obtain x where x: "x \<in> A" using assms(2) by blast
  have "Min A \<le> x" "x \<le> Max A" using assms(1) x by simp_all
  then have "0 \<le> Max A" using assms(3) by linarith
  then show ?thesis using assms(1,2) by (simp add: max_def)
qed

lemma ring_check_first:
  "\<not> (minX (ring_loop extent scale top' left R 0 outline 0 ring_init) = Num 0)"
  using ring_loop_bbox_first[of extent scale top' left R outline 0 ring_init]
  by (simp add: ring_init_def)

lemma ring_check_later:
  assumes "0 < k"
  shows "(minX (ring_loop extent scale top' left R k outline 0 ring_init) = Num 0 \<and>
          minY (ring_loop extent scale top' left R k outline 0 ring_init) = Num 0 \<and>
          maxX (ring_loop extent scale top' left R k outline 0 ring_init) = extent \<and>
          maxY (ring_loop extent scale top' left R k outline 0 ring_init) = extent)
         = (spec_ring_bbox outline = Some (0, 0, extent, extent))"
proof -
  let ?s = "ring_loop extent scale top' left R k outline 0 ring_init"
  have acc:
    "minX ?s = foldl Math_min Infinity (map fst outline)"
    "minY ?s = foldl Math_min Infinity (map snd outline)"
    "maxX ?s = foldl Math_max 0 (map fst outline)"
    "maxY ?s = foldl Math_max 0 (map snd outline)"
    using ring_loop_bbox_later[OF assms, of extent scale top' left R outline 0 ring_init]
    by (simp_all add: ring_init_def)
  show ?thesis
  proof (cases "outline = []")
    case True
    show ?thesis unfolding acc using True by (simp add: spec_ring_bbox_def)
  next
    case False
    have fx: "finite (fst ` set outline)" "fst ` set outline \<noteq> {}"
     and fy: "finite (snd ` set outline)" "snd ` set outline \<noteq> {}"
      using False by simp_all
    have mx: "Min (fst ` set outline) = 0 \<Longrightarrow>
              Max (insert 0 (fst ` set outline)) = Max (fst ` set outline)"
      by (rule Max_insert_0[OF fx])
    have my: "Min (snd ` set outline) = 0 \<Longrightarrow>
              Max (insert 0 (snd ` set outline)) = Max (snd ` set outline)"
      by (rule Max_insert_0[OF fy])
    have "(minX ?s = Num 0 \<and> minY ?s = Num 0 \<and> maxX ?s = extent \<and> maxY ?s = extent)
          = (Min (fst ` set outline) = 0 \<and> Min (snd ` set outline) = 0 \<and>
             Max (insert 0 (fst ` set outline)) = extent \<and>
             Max (insert 0 (snd ` set outline)) = extent)"
      unfolding acc using False by (simp add: foldl_Math_min_Infinity foldl_Math_max)
    also have "\<dots> = (Min (fst ` set outline) = 0 \<and> Min (snd ` set outline) = 0 \<and>
             Max (fst ` set outline) = extent \<and> Max (snd ` set outline) = extent)"
      using mx my by metis
    also have "\<dots> = (spec_ring_bbox outline = Some (0, 0, extent, extent))"
      using False by (simp add: spec_ring_bbox_def)
    finally show ?thesis .
  qed
qed

lemma ring_loop_decode:
  "ring (ring_loop extent scale top' left R k outline 0 ring_init) =
     spec_ring extent scale top' left R outline"
  by (simp add: ring_loop_ring ring_init_def spec_ring_def)



section \<open>The loop over the rings\<close>

lemma rings_loop_valid:
  "fst (rings_loop extent scale top' left R os rs) =
     (\<not> (\<exists>j<length os. 0 < length rs + j \<and> spec_ring_bbox (os ! j) = Some (0, 0, extent, extent)))"
proof (induction os arbitrary: rs)
  case Nil
  show ?case by simp
next
  case (Cons outline rest)
  let ?s = "ring_loop extent scale top' left R (length rs) outline 0 ring_init"
  let ?full = "\<lambda>p. spec_ring_bbox p = Some (0, 0, extent, extent)"
  let ?chk = "minX ?s = Num 0 \<and> minY ?s = Num 0 \<and> maxX ?s = extent \<and> maxY ?s = extent"
  have chk: "?chk = (0 < length rs \<and> ?full outline)"
  proof (cases "length rs = 0")
    case True
    then show ?thesis using ring_check_first[of extent scale top' left R outline] by simp
  next
    case False
    then show ?thesis using ring_check_later[of "length rs" extent scale top' left R outline] by simp
  qed
  have split: "(\<exists>j<length (outline # rest). 0 < length rs + j \<and> ?full ((outline # rest) ! j)) =
        ((0 < length rs \<and> ?full outline) \<or>
         (\<exists>j<length rest. 0 < length (rs @ [ring ?s]) + j \<and> ?full (rest ! j)))"
    (is "?L = ?R")
  proof
    assume ?L
    then obtain j where j: "j < length (outline # rest)" "0 < length rs + j"
      "?full ((outline # rest) ! j)" by blast
    show ?R
    proof (cases j)
      case 0
      then show ?thesis using j by simp
    next
      case (Suc j')
      then have "j' < length rest \<and> 0 < length (rs @ [ring ?s]) + j' \<and> ?full (rest ! j')"
        using j by simp
      then show ?thesis by blast
    qed
  next
    assume ?R
    then show ?L
    proof
      assume "0 < length rs \<and> ?full outline"
      then have "0 < length (outline # rest) \<and> 0 < length rs + 0 \<and> ?full ((outline # rest) ! 0)"
        by simp
      then show ?L by blast
    next
      assume "\<exists>j<length rest. 0 < length (rs @ [ring ?s]) + j \<and> ?full (rest ! j)"
      then obtain j where "j < length rest" "?full (rest ! j)" by blast
      then have "Suc j < length (outline # rest) \<and> 0 < length rs + Suc j \<and>
                 ?full ((outline # rest) ! Suc j)" by simp
      then show ?L by blast
    qed
  qed
  have unf: "rings_loop extent scale top' left R (outline # rest) rs =
        (if ?chk then (False, rs) else rings_loop extent scale top' left R rest (rs @ [ring ?s]))"
    by (simp add: Let_def)
  show ?case
  proof (cases ?chk)
    case True
    have "fst (rings_loop extent scale top' left R (outline # rest) rs) = False"
      by (simp only: unf if_P[OF True] fst_conv)
    moreover have "0 < length rs \<and> ?full outline" using True chk by blast
    then have "\<exists>j<length (outline # rest). 0 < length rs + j \<and> ?full ((outline # rest) ! j)"
      using split by blast
    ultimately show ?thesis by blast
  next
    case False
    have "rings_loop extent scale top' left R (outline # rest) rs =
               rings_loop extent scale top' left R rest (rs @ [ring ?s])"
      by (simp only: unf if_not_P[OF False])
    moreover have "\<not> (0 < length rs \<and> ?full outline)" using False chk by blast
    then have "(\<exists>j<length (outline # rest). 0 < length rs + j \<and> ?full ((outline # rest) ! j)) =
               (\<exists>j<length rest. 0 < length (rs @ [ring ?s]) + j \<and> ?full (rest ! j))"
      using split by blast
    ultimately show ?thesis using Cons.IH[of "rs @ [ring ?s]"] by (simp only:)
  qed
qed

lemma rings_loop_rings:
  "fst (rings_loop extent scale top' left R os rs) \<Longrightarrow>
   snd (rings_loop extent scale top' left R os rs) =
     rs @ map (spec_ring extent scale top' left R) os"
proof (induction os arbitrary: rs)
  case Nil
  show ?case by simp
next
  case (Cons outline rest)
  let ?s = "ring_loop extent scale top' left R (length rs) outline 0 ring_init"
  let ?chk = "minX ?s = Num 0 \<and> minY ?s = Num 0 \<and> maxX ?s = extent \<and> maxY ?s = extent"
  have unf: "rings_loop extent scale top' left R (outline # rest) rs =
        (if ?chk then (False, rs) else rings_loop extent scale top' left R rest (rs @ [ring ?s]))"
    by (simp add: Let_def)
  have nchk: "\<not> ?chk"
  proof
    assume c: ?chk
    have "fst (rings_loop extent scale top' left R (outline # rest) rs) = False"
      by (simp only: unf if_P[OF c] fst_conv)
    then show False using Cons.prems by simp
  qed
  have step: "rings_loop extent scale top' left R (outline # rest) rs =
             rings_loop extent scale top' left R rest (rs @ [ring ?s])"
    by (simp only: unf if_not_P[OF nchk])
  have "fst (rings_loop extent scale top' left R rest (rs @ [ring ?s]))"
    using Cons.prems by (simp only: step)
  then have "snd (rings_loop extent scale top' left R rest (rs @ [ring ?s])) =
             (rs @ [ring ?s]) @ map (spec_ring extent scale top' left R) rest"
    by (rule Cons.IH)
  then show ?case
    unfolding step by (simp add: ring_loop_decode)
qed

lemma process_feature_Polygon:
  assumes "type' feature = Polygon" "geometry feature = Paths os"
  shows "process_feature extent scale top' left R tile tileKey feature =
           Some (if spec_discarded extent os then []
                 else [processPolygonFeature (layer tile)
                         [\<lparr>rings = map (spec_ring extent scale top' left R) os\<rparr>]
                         (makeEnv tile tileKey feature) (level tileKey)])"
proof -
  obtain v rs where r: "rings_loop extent scale top' left R os [] = (v, rs)"
    by (cases "rings_loop extent scale top' left R os []")
  have v: "v = (\<not> spec_discarded extent os)"
    using rings_loop_valid[of extent scale top' left R os "[]"] r
    by (auto simp add: spec_discarded_def Suc_le_eq)
  have rs: "v \<Longrightarrow> rs = map (spec_ring extent scale top' left R) os"
    using rings_loop_rings[of extent scale top' left R os "[]"] r by simp
  show ?thesis
    using assms r v rs by (simp add: process_feature_def Let_def)
qed

section \<open>The calls of one feature and of a tile\<close>

lemma process_features_concat:
  "(\<forall>f\<in>set fs. process_feature extent scale top' left R tile tileKey f \<noteq> None) \<Longrightarrow>
   process_features extent scale top' left R tile tileKey fs =
     Some (concat (map (\<lambda>f. the (process_feature extent scale top' left R tile tileKey f)) fs))"
  by (induction fs) auto

lemma log2_extent: "log 2 4096 = 12"
  using log_pow_cancel[of "2::real" 12] by simp

lemma spec_scale_power: "spec_scale tileKey = 2 ^ (level tileKey + 12)"
proof -
  have "spec_scale tileKey = 2 powr (real (level tileKey + 12))"
    by (simp add: spec_scale_def log2_extent)
  also have "\<dots> = 2 ^ (level tileKey + 12)"
    by (simp only: powr_realpow[of 2, simplified])
  finally show ?thesis .
qed

lemma process_basis:
  "process lat2tile R tile tileKey geoBox =
     process_features 4096 (spec_scale tileKey) (spec_top lat2tile tileKey geoBox)
       (spec_left tileKey geoBox) R tile tileKey (features tile)"
  by (simp add: process_def Let_def spec_scale_def spec_top_def spec_left_def)

lemma point_loop_map:
  "point_loop scale top' left R tile tileKey env ps =
     map (\<lambda>p. processPointFeature (layer tile) [spec_world scale top' left R p] env
                 (level tileKey)) ps"
  by (induction ps) (simp_all add: Let_def spec_world_def)

lemma line_positions_loop_map:
  "line_positions_loop scale top' left R ps line =
     line\<lparr>line_positions := line_positions line @ map (spec_world scale top' left R) ps\<rparr>"
proof (induction ps arbitrary: line)
  case Nil
  show ?case by simp
next
  case (Cons p ps)
  obtain x y where p: "p = (x, y)" by (cases p)
  show ?case
    by (simp add: p Cons.IH Let_def spec_world_def)
qed

lemma line_loop_map:
  "line_loop scale top' left R tile tileKey env ls =
     map (\<lambda>l. processLineFeature (layer tile)
                 [\<lparr>line_positions = map (spec_world scale top' left R) l\<rparr>] env
                 (level tileKey)) ls"
  by (induction ls) (simp_all add: Let_def line_positions_loop_map)

lemma process_feature_Point:
  assumes "type' feature = Point" and "geometry feature = Positions ps"
  shows "process_feature extent scale top' left R tile tileKey feature =
           Some (map (\<lambda>p. processPointFeature (layer tile) [spec_world scale top' left R p]
                              (makeEnv tile tileKey feature) (level tileKey)) ps)"
  using assms by (simp add: process_feature_def Let_def point_loop_map)

lemma process_feature_LineString:
  assumes "type' feature = LineString" and "geometry feature = Paths ls"
  shows "process_feature extent scale top' left R tile tileKey feature =
           Some (map (\<lambda>l. processLineFeature (layer tile)
                              [\<lparr>line_positions = map (spec_world scale top' left R) l\<rparr>]
                              (makeEnv tile tileKey feature) (level tileKey)) ls)"
  using assms by (simp add: process_feature_def Let_def line_loop_map)

lemma process_feature_Unknown:
  assumes "type' feature = Unknown"
  shows "process_feature extent scale top' left R tile tileKey feature = Some []"
  using assms by (simp add: process_feature_def Let_def)

lemma spec_position_world:
  "spec_world (spec_scale tileKey) (spec_top lat2tile tileKey geoBox) (spec_left tileKey geoBox) R =
   spec_position lat2tile R tileKey geoBox"
  by (rule ext) (simp add: spec_world_def spec_position_def Let_def)

lemma ex_basis:
  "spec_scale ex_key1 = 8192" "spec_left ex_key1 ex_box = 0"
  "spec_top (\<lambda>lat z. 0) ex_key1 ex_box = 0"
  by (simp_all add: spec_scale_power spec_left_def spec_top_def ex_key1_def ex_box_def)

lemma ex_position:
  "spec_position (\<lambda>lat z. 0) 40000 ex_key1 ex_box (x, y) =
     \<lparr>vec_x = (x / 8192) * 40000, vec_y = (y / 8192) * 40000, vec_z = 0\<rparr>"
  by (simp add: spec_position_def ex_basis Let_def)

section \<open>The model evaluated on the examples\<close>

lemma ring_loop_ex_square:
  "ring_loop 4096 4096 0 0 1 1 ex_square 0 ring_init =
     \<lparr>minX = Num 0, minY = Num 0, maxX = 4096, maxY = 4096,
      ring = \<lparr>positions =
                 [\<lparr>vec_x = 0, vec_y = 0, vec_z = 0\<rparr>, \<lparr>vec_x = 1, vec_y = 0, vec_z = 0\<rparr>,
                  \<lparr>vec_x = 1, vec_y = 1, vec_z = 0\<rparr>, \<lparr>vec_x = 0, vec_y = 1, vec_z = 0\<rparr>],
               outlines = [False, False, False, False]\<rparr>\<rparr>"
  by (simp add: ring_loop.simps ex_square_def ring_init_def Let_def Math_max_def)

lemma ring_loop_ex_square_first:
  "ring_loop 4096 4096 0 0 1 0 ex_square 0 ring_init =
     \<lparr>minX = Infinity, minY = Infinity, maxX = 0, maxY = 0,
      ring = \<lparr>positions =
                 [\<lparr>vec_x = 0, vec_y = 0, vec_z = 0\<rparr>, \<lparr>vec_x = 1, vec_y = 0, vec_z = 0\<rparr>,
                  \<lparr>vec_x = 1, vec_y = 1, vec_z = 0\<rparr>, \<lparr>vec_x = 0, vec_y = 1, vec_z = 0\<rparr>],
               outlines = [False, False, False, False]\<rparr>\<rparr>"
  by (simp add: ring_loop.simps ex_square_def ring_init_def Let_def Math_max_def)

lemma process_feature_ex_hole_full:
  "process_feature 4096 4096 0 0 1 ex_tile ex_key ex_hole_full = Some []"
  by (simp add: process_feature_def ex_hole_full_def ex_feature_def Let_def
      ring_loop.simps ex_square_def ex_triangle_def ring_init_def Math_max_def)

section \<open>Polygons: the full-tile-cover filter\<close>

lemma ex_square_bbox: "spec_ring_bbox ex_square = Some (0, 0, 4096, 4096)"
  by (simp add: spec_ring_bbox_def ex_square_def)

text \<open>
  Claim C1. A polygon feature one of whose rings at index 1 or more has the tile-local
  bounding box \<open>(0, 0, extent, extent)\<close> is discarded: no call is made for it. A polygon whose
  only ring has that bounding box is emitted, in one call that carries the ring; and so is
  every polygon none of whose later rings spans the tile.
\<close>

theorem polygon_full_tile_cover:
  assumes "type' feature = Polygon" and "geometry feature = Paths os"
  shows
    "((\<exists>k. 1 \<le> k \<and> k < length os \<and> spec_ring_bbox (os ! k) = Some (0, 0, 4096, 4096)) \<longrightarrow>
        process_feature 4096 scale top' left R tile tileKey feature = Some []) \<and>
     ((\<exists>outline. os = [outline] \<and> spec_ring_bbox outline = Some (0, 0, 4096, 4096)) \<longrightarrow>
        process_feature 4096 scale top' left R tile tileKey feature =
          Some [processPolygonFeature (layer tile)
                  [\<lparr>rings = map (spec_ring 4096 scale top' left R) os\<rparr>]
                  (makeEnv tile tileKey feature) (level tileKey)]) \<and>
     (\<not> (\<exists>k. 1 \<le> k \<and> k < length os \<and> spec_ring_bbox (os ! k) = Some (0, 0, 4096, 4096)) \<longrightarrow>
        process_feature 4096 scale top' left R tile tileKey feature =
          Some [processPolygonFeature (layer tile)
                  [\<lparr>rings = map (spec_ring 4096 scale top' left R) os\<rparr>]
                  (makeEnv tile tileKey feature) (level tileKey)])"
proof -
  note pf = process_feature_Polygon[OF assms, of 4096 scale top' left R tile tileKey]
  have single: "\<And>outline. os = [outline] \<Longrightarrow> \<not> spec_discarded 4096 os"
    by (simp add: spec_discarded_def)
  show ?thesis
  proof (intro conjI impI)
    assume "\<exists>k. 1 \<le> k \<and> k < length os \<and> spec_ring_bbox (os ! k) = Some (0, 0, 4096, 4096)"
    then have "spec_discarded 4096 os" by (simp add: spec_discarded_def)
    then show "process_feature 4096 scale top' left R tile tileKey feature = Some []"
      by (simp add: pf)
  next
    assume "\<exists>outline. os = [outline] \<and> spec_ring_bbox outline = Some (0, 0, 4096, 4096)"
    then have "\<not> spec_discarded 4096 os" using single by blast
    then show "process_feature 4096 scale top' left R tile tileKey feature =
          Some [processPolygonFeature (layer tile)
                  [\<lparr>rings = map (spec_ring 4096 scale top' left R) os\<rparr>]
                  (makeEnv tile tileKey feature) (level tileKey)]"
      by (simp add: pf)
  next
    assume "\<not> (\<exists>k. 1 \<le> k \<and> k < length os \<and> spec_ring_bbox (os ! k) = Some (0, 0, 4096, 4096))"
    then have "\<not> spec_discarded 4096 os" by (simp add: spec_discarded_def)
    then show "process_feature 4096 scale top' left R tile tileKey feature =
          Some [processPolygonFeature (layer tile)
                  [\<lparr>rings = map (spec_ring 4096 scale top' left R) os\<rparr>]
                  (makeEnv tile tileKey feature) (level tileKey)]"
      by (simp add: pf)
  qed
qed

theorem polygon_full_tile_cover_witness:
  "process_feature 4096 4096 0 0 1 ex_tile ex_key ex_hole_full = Some [] \<and>
   process_feature 4096 4096 0 0 1 ex_tile ex_key ex_outer_full =
     Some [processPolygonFeature ''water''
             [\<lparr>rings = [\<lparr>positions =
                 [\<lparr>vec_x = 0, vec_y = 0, vec_z = 0\<rparr>, \<lparr>vec_x = 1, vec_y = 0, vec_z = 0\<rparr>,
                  \<lparr>vec_x = 1, vec_y = 1, vec_z = 0\<rparr>, \<lparr>vec_x = 0, vec_y = 1, vec_z = 0\<rparr>],
                 outlines = [False, False, False, False]\<rparr>]\<rparr>]
             (makeEnv ex_tile ex_key ex_outer_full) 0]"
proof -
  have t1: "type' ex_hole_full = Polygon" and g1: "geometry ex_hole_full = Paths [ex_triangle, ex_square]"
    by (simp_all add: ex_hole_full_def ex_feature_def)
  have t2: "type' ex_outer_full = Polygon" and g2: "geometry ex_outer_full = Paths [ex_square]"
    by (simp_all add: ex_outer_full_def ex_feature_def)
  have k: "\<exists>k. 1 \<le> k \<and> k < length [ex_triangle, ex_square] \<and>
               spec_ring_bbox ([ex_triangle, ex_square] ! k) = Some (0, 0, 4096, 4096)"
    by (rule exI[of _ 1]) (simp add: ex_square_bbox)
  have o: "\<exists>outline. [ex_square] = [outline] \<and> spec_ring_bbox outline = Some (0, 0, 4096, 4096)"
    by (simp add: ex_square_bbox)
  have r: "spec_ring 4096 4096 0 0 1 ex_square =
           \<lparr>positions =
                 [\<lparr>vec_x = 0, vec_y = 0, vec_z = 0\<rparr>, \<lparr>vec_x = 1, vec_y = 0, vec_z = 0\<rparr>,
                  \<lparr>vec_x = 1, vec_y = 1, vec_z = 0\<rparr>, \<lparr>vec_x = 0, vec_y = 1, vec_z = 0\<rparr>],
                 outlines = [False, False, False, False]\<rparr>"
    by (simp add: spec_ring_def spec_world_def spec_outline_flag_def spec_on_border_def
        ex_square_def upt_rec)
  show ?thesis
    using polygon_full_tile_cover[OF t1 g1, of 4096 0 0 1 ex_tile ex_key] k
          polygon_full_tile_cover[OF t2 g2, of 4096 0 0 1 ex_tile ex_key] o r
    by (simp add: ex_tile_def ex_key_def)
qed

section \<open>Polygons: outline flags\<close>

text \<open>
  Claim C2. For every ring decoded by \<^verbatim>\<open>process\<close> and every edge \<open>i\<close> of it, from vertex
  \<open>i\<close> to vertex \<open>(i + 1) mod n\<close>, the outline flag is false exactly when both endpoints have
  \<open>x = 0\<close>, or both \<open>x = 4096\<close>, or both \<open>y = 0\<close>, or both \<open>y = 4096\<close>, and true
  otherwise. The first part is about the ring as the inner loop builds it, whatever the
  number of rings collected before; the second about the rings of an emitted polygon.
\<close>

theorem outline_flag_on_border:
  "(i < length outline \<longrightarrow>
      (outlines (ring (ring_loop 4096 scale top' left R k outline 0 ring_init)) ! i = False) =
        ((fst (outline ! i) = 0 \<and> fst (outline ! ((i + 1) mod length outline)) = 0) \<or>
         (fst (outline ! i) = 4096 \<and> fst (outline ! ((i + 1) mod length outline)) = 4096) \<or>
         (snd (outline ! i) = 0 \<and> snd (outline ! ((i + 1) mod length outline)) = 0) \<or>
         (snd (outline ! i) = 4096 \<and> snd (outline ! ((i + 1) mod length outline)) = 4096))) \<and>
   (type' feature = Polygon \<and> geometry feature = Paths os \<and>
    process_feature 4096 scale top' left R tile tileKey feature =
      Some [processPolygonFeature name [polygon] env lvl] \<and>
    j < length os \<and> i < length (os ! j) \<longrightarrow>
      (outlines (rings polygon ! j) ! i = False) =
        spec_on_border 4096 (os ! j ! i) (os ! j ! ((i + 1) mod length (os ! j))))"
proof (intro conjI impI)
  assume i: "i < length outline"
  have "outlines (ring (ring_loop 4096 scale top' left R k outline 0 ring_init)) ! i =
        spec_outline_flag 4096 outline i"
    using i by (simp add: ring_loop_decode spec_ring_def)
  then show "(outlines (ring (ring_loop 4096 scale top' left R k outline 0 ring_init)) ! i = False) =
        ((fst (outline ! i) = 0 \<and> fst (outline ! ((i + 1) mod length outline)) = 0) \<or>
         (fst (outline ! i) = 4096 \<and> fst (outline ! ((i + 1) mod length outline)) = 4096) \<or>
         (snd (outline ! i) = 0 \<and> snd (outline ! ((i + 1) mod length outline)) = 0) \<or>
         (snd (outline ! i) = 4096 \<and> snd (outline ! ((i + 1) mod length outline)) = 4096))"
    by (simp add: spec_outline_flag_def spec_on_border_def)
next
  assume a: "type' feature = Polygon \<and> geometry feature = Paths os \<and>
    process_feature 4096 scale top' left R tile tileKey feature =
      Some [processPolygonFeature name [polygon] env lvl] \<and>
    j < length os \<and> i < length (os ! j)"
  then have t: "type' feature = Polygon" and g: "geometry feature = Paths os"
    and p: "process_feature 4096 scale top' left R tile tileKey feature =
      Some [processPolygonFeature name [polygon] env lvl]"
    and j: "j < length os" and i: "i < length (os ! j)" by simp_all
  have "rings polygon = map (spec_ring 4096 scale top' left R) os"
    using p process_feature_Polygon[OF t g, of 4096 scale top' left R tile tileKey]
    by (cases "spec_discarded 4096 os") auto
  then have "outlines (rings polygon ! j) ! i = spec_outline_flag 4096 (os ! j) i"
    using i j by (simp add: spec_ring_def)
  then show "(outlines (rings polygon ! j) ! i = False) =
        spec_on_border 4096 (os ! j ! i) (os ! j ! ((i + 1) mod length (os ! j)))"
    by (simp add: spec_outline_flag_def)
qed

theorem outline_flag_on_border_witness:
  "outlines (ring (ring_loop 4096 4096 0 0 1 0 ex_square 0 ring_init)) ! 3 = False \<and>
   outlines (ring (ring_loop 4096 4096 0 0 1 0 ex_triangle 0 ring_init)) ! 0 = True \<and>
   outlines (rings \<lparr>rings = [spec_ring 4096 4096 0 0 1 ex_square]\<rparr> ! 0) ! 1 = False"
proof -
  have 1: "(3::nat) < length ex_square" by (simp add: ex_square_def)
  have 2: "(0::nat) < length ex_triangle" by (simp add: ex_triangle_def)
  have t: "type' ex_outer_full = Polygon" and g: "geometry ex_outer_full = Paths [ex_square]"
    by (simp_all add: ex_outer_full_def ex_feature_def)
  have 3: "type' ex_outer_full = Polygon \<and> geometry ex_outer_full = Paths [ex_square] \<and>
    process_feature 4096 4096 0 0 1 ex_tile ex_key ex_outer_full =
      Some [processPolygonFeature (layer ex_tile) [\<lparr>rings = [spec_ring 4096 4096 0 0 1 ex_square]\<rparr>]
              (makeEnv ex_tile ex_key ex_outer_full) (level ex_key)] \<and>
    (0::nat) < length [ex_square] \<and> (1::nat) < length ([ex_square] ! 0)"
    by (simp add: t g process_feature_Polygon[OF t g] spec_discarded_def ex_square_def)
  have a: "outlines (ring (ring_loop 4096 4096 0 0 1 0 ex_square 0 ring_init)) ! 3 = False"
    using outline_flag_on_border[where i = 3 and outline = ex_square and scale = 4096
        and top' = 0 and left = 0 and R = 1 and k = 0] 1
    by (simp add: ex_square_def)
  have b: "outlines (ring (ring_loop 4096 4096 0 0 1 0 ex_triangle 0 ring_init)) ! 0 = True"
    using outline_flag_on_border[where i = 0 and outline = ex_triangle and scale = 4096
        and top' = 0 and left = 0 and R = 1 and k = 0] 2
    by (simp add: ex_triangle_def)
  have c: "outlines (rings \<lparr>rings = [spec_ring 4096 4096 0 0 1 ex_square]\<rparr> ! 0) ! 1 = False"
    using outline_flag_on_border[where i = 1 and j = 0 and os = "[ex_square]"
        and feature = ex_outer_full and scale = 4096 and top' = 0 and left = 0 and R = 1
        and tile = ex_tile and tileKey = ex_key and name = "layer ex_tile"
        and polygon = "\<lparr>rings = [spec_ring 4096 4096 0 0 1 ex_square]\<rparr>"
        and env = "makeEnv ex_tile ex_key ex_outer_full" and lvl = "level ex_key"] 3
    by (simp add: ex_square_def spec_on_border_def)
  show ?thesis using a b c by blast
qed

section \<open>World-space positions\<close>

text \<open>
  Claim C3. Every tile-local coordinate pair \<open>(x, y)\<close> of a feature is emitted as the position
  \<open>(((left + x) / scale) * R, ((top + y) / scale) * R, 0)\<close> with
  \<open>scale = 2^(level + log2 4096)\<close>, \<open>left = ((west + 180) / 360) * scale\<close> and
  \<open>top = lat2tile(north, level + log2 4096)\<close>; points, lines and polygon rings use the same
  formula. \<^verbatim>\<open>process\<close> runs the loop over the features with these values, and the calls of
  a point, a line and a polygon feature carry \<open>spec_position\<close> of their coordinates.
\<close>

theorem world_position_formula:
  "process lat2tile R tile tileKey geoBox =
     process_features 4096 (spec_scale tileKey) (spec_top lat2tile tileKey geoBox)
       (spec_left tileKey geoBox) R tile tileKey (features tile) \<and>
   (type' feature = Point \<and> geometry feature = Positions ps \<longrightarrow>
      process_feature 4096 (spec_scale tileKey) (spec_top lat2tile tileKey geoBox)
        (spec_left tileKey geoBox) R tile tileKey feature =
        Some (map (\<lambda>p. processPointFeature (layer tile)
                          [spec_position lat2tile R tileKey geoBox p]
                          (makeEnv tile tileKey feature) (level tileKey)) ps)) \<and>
   (type' feature = LineString \<and> geometry feature = Paths ls \<longrightarrow>
      process_feature 4096 (spec_scale tileKey) (spec_top lat2tile tileKey geoBox)
        (spec_left tileKey geoBox) R tile tileKey feature =
        Some (map (\<lambda>l. processLineFeature (layer tile)
                          [\<lparr>line_positions = map (spec_position lat2tile R tileKey geoBox) l\<rparr>]
                          (makeEnv tile tileKey feature) (level tileKey)) ls)) \<and>
   (type' feature = Polygon \<and> geometry feature = Paths os \<and>
    process_feature 4096 (spec_scale tileKey) (spec_top lat2tile tileKey geoBox)
      (spec_left tileKey geoBox) R tile tileKey feature =
      Some [processPolygonFeature name [polygon] env lvl] \<longrightarrow>
      map positions (rings polygon) = map (map (spec_position lat2tile R tileKey geoBox)) os)"
proof (intro conjI impI)
  show "process lat2tile R tile tileKey geoBox =
     process_features 4096 (spec_scale tileKey) (spec_top lat2tile tileKey geoBox)
       (spec_left tileKey geoBox) R tile tileKey (features tile)"
    by (rule process_basis)
next
  assume "type' feature = Point \<and> geometry feature = Positions ps"
  then show "process_feature 4096 (spec_scale tileKey) (spec_top lat2tile tileKey geoBox)
        (spec_left tileKey geoBox) R tile tileKey feature =
        Some (map (\<lambda>p. processPointFeature (layer tile)
                          [spec_position lat2tile R tileKey geoBox p]
                          (makeEnv tile tileKey feature) (level tileKey)) ps)"
    by (simp add: process_feature_Point spec_position_world)
next
  assume "type' feature = LineString \<and> geometry feature = Paths ls"
  then show "process_feature 4096 (spec_scale tileKey) (spec_top lat2tile tileKey geoBox)
        (spec_left tileKey geoBox) R tile tileKey feature =
        Some (map (\<lambda>l. processLineFeature (layer tile)
                          [\<lparr>line_positions = map (spec_position lat2tile R tileKey geoBox) l\<rparr>]
                          (makeEnv tile tileKey feature) (level tileKey)) ls)"
    by (simp add: process_feature_LineString spec_position_world)
next
  assume a: "type' feature = Polygon \<and> geometry feature = Paths os \<and>
    process_feature 4096 (spec_scale tileKey) (spec_top lat2tile tileKey geoBox)
      (spec_left tileKey geoBox) R tile tileKey feature =
      Some [processPolygonFeature name [polygon] env lvl]"
  then have t: "type' feature = Polygon" and g: "geometry feature = Paths os"
    and p: "process_feature 4096 (spec_scale tileKey) (spec_top lat2tile tileKey geoBox)
      (spec_left tileKey geoBox) R tile tileKey feature =
      Some [processPolygonFeature name [polygon] env lvl]" by simp_all
  have "rings polygon = map (spec_ring 4096 (spec_scale tileKey) (spec_top lat2tile tileKey geoBox)
                              (spec_left tileKey geoBox) R) os"
    using p process_feature_Polygon[OF t g, of 4096 "spec_scale tileKey"
        "spec_top lat2tile tileKey geoBox" "spec_left tileKey geoBox" R tile tileKey]
    by (cases "spec_discarded 4096 os") auto
  then show "map positions (rings polygon) =
             map (map (spec_position lat2tile R tileKey geoBox)) os"
    by (simp add: spec_ring_def spec_position_world comp_def)
qed

theorem world_position_formula_witness:
  "process (\<lambda>lat z. 0) 40000 ex_tile3 ex_key1 ex_box =
     Some [processPointFeature ''water'' [\<lparr>vec_x = 0, vec_y = 0, vec_z = 0\<rparr>]
             (makeEnv ex_tile3 ex_key1 ex_points) 1,
           processPointFeature ''water'' [\<lparr>vec_x = 20000, vec_y = 10000, vec_z = 0\<rparr>]
             (makeEnv ex_tile3 ex_key1 ex_points) 1,
           processPointFeature ''water'' [\<lparr>vec_x = 40000, vec_y = 40000, vec_z = 0\<rparr>]
             (makeEnv ex_tile3 ex_key1 ex_points) 1,
           processLineFeature ''water''
             [\<lparr>line_positions = [\<lparr>vec_x = 0, vec_y = 0, vec_z = 0\<rparr>,
                                  \<lparr>vec_x = 20000, vec_y = 10000, vec_z = 0\<rparr>]\<rparr>]
             (makeEnv ex_tile3 ex_key1 ex_line) 1,
           processLineFeature ''water''
             [\<lparr>line_positions = [\<lparr>vec_x = 40000, vec_y = 40000, vec_z = 0\<rparr>]\<rparr>]
             (makeEnv ex_tile3 ex_key1 ex_line) 1,
           processPolygonFeature ''water''
             [\<lparr>rings = [\<lparr>positions = [\<lparr>vec_x = 0, vec_y = 0, vec_z = 0\<rparr>,
                                       \<lparr>vec_x = 20000, vec_y = 10000, vec_z = 0\<rparr>],
                         outlines = [True, True]\<rparr>]\<rparr>]
             (makeEnv ex_tile3 ex_key1 ex_sliver) 1]"
proof -
  let ?f = "process_feature 4096 (spec_scale ex_key1) (spec_top (\<lambda>lat z. 0) ex_key1 ex_box)
              (spec_left ex_key1 ex_box) 40000 ex_tile3 ex_key1"
  note w = world_position_formula[where tile = ex_tile3 and ?lat2tile = "\<lambda>lat z. 0"
             and R = 40000 and tileKey = ex_key1 and geoBox = ex_box]
  have c: "level ex_key1 = 1" "layer ex_tile3 = ''water''"
    "features ex_tile3 = [ex_points, ex_line, ex_sliver]"
    by (simp_all add: ex_tile3_def ex_tile_def ex_key1_def)
  have p: "type' ex_points = Point \<and>
           geometry ex_points = Positions [(0, 0), (4096, 2048), (8192, 8192)]"
    by (simp add: ex_points_def ex_feature_def)
  have l: "type' ex_line = LineString \<and>
           geometry ex_line = Paths [[(0, 0), (4096, 2048)], [(8192, 8192)]]"
    by (simp add: ex_line_def ex_feature_def)
  have s: "type' ex_sliver = Polygon" "geometry ex_sliver = Paths [[(0, 0), (4096, 2048)]]"
    by (simp_all add: ex_sliver_def ex_feature_def)
  have 0: "process (\<lambda>lat z. 0) 40000 ex_tile3 ex_key1 ex_box =
           process_features 4096 (spec_scale ex_key1) (spec_top (\<lambda>lat z. 0) ex_key1 ex_box)
             (spec_left ex_key1 ex_box) 40000 ex_tile3 ex_key1 (features ex_tile3)"
    using w by blast
  have 1: "?f ex_points =
        Some (map (\<lambda>p. processPointFeature (layer ex_tile3)
                          [spec_position (\<lambda>lat z. 0) 40000 ex_key1 ex_box p]
                          (makeEnv ex_tile3 ex_key1 ex_points) (level ex_key1))
                [(0, 0), (4096, 2048), (8192, 8192)])"
    using w[where feature = ex_points and ps = "[(0, 0), (4096, 2048), (8192, 8192)]"] p
    by blast
  have 2: "?f ex_line =
        Some (map (\<lambda>l. processLineFeature (layer ex_tile3)
                          [\<lparr>line_positions = map (spec_position (\<lambda>lat z. 0) 40000 ex_key1 ex_box) l\<rparr>]
                          (makeEnv ex_tile3 ex_key1 ex_line) (level ex_key1))
                [[(0, 0), (4096, 2048)], [(8192, 8192)]])"
    using w[where feature = ex_line and ls = "[[(0, 0), (4096, 2048)], [(8192, 8192)]]"] l
    by blast
  have 3: "?f ex_sliver =
        Some [processPolygonFeature ''water''
               [\<lparr>rings = [spec_ring 4096 (spec_scale ex_key1) (spec_top (\<lambda>lat z. 0) ex_key1 ex_box)
                             (spec_left ex_key1 ex_box) 40000 [(0, 0), (4096, 2048)]]\<rparr>]
               (makeEnv ex_tile3 ex_key1 ex_sliver) 1]"
    by (simp add: process_feature_Polygon[OF s] spec_discarded_def c)
  have 4: "map positions [spec_ring 4096 (spec_scale ex_key1) (spec_top (\<lambda>lat z. 0) ex_key1 ex_box)
                             (spec_left ex_key1 ex_box) 40000 [(0, 0), (4096, 2048)]] =
           map (map (spec_position (\<lambda>lat z. 0) 40000 ex_key1 ex_box)) [[(0, 0), (4096, 2048)]]"
    using w[where feature = ex_sliver and os = "[[(0, 0), (4096, 2048)]]"
             and name = "''water''" and env = "makeEnv ex_tile3 ex_key1 ex_sliver" and lvl = 1
             and polygon = "\<lparr>rings = [spec_ring 4096 (spec_scale ex_key1)
                             (spec_top (\<lambda>lat z. 0) ex_key1 ex_box)
                             (spec_left ex_key1 ex_box) 40000 [(0, 0), (4096, 2048)]]\<rparr>"]
          s 3
    by simp
  have 5: "spec_ring 4096 (spec_scale ex_key1) (spec_top (\<lambda>lat z. 0) ex_key1 ex_box)
                             (spec_left ex_key1 ex_box) 40000 [(0, 0), (4096, 2048)] =
           \<lparr>positions = [\<lparr>vec_x = 0, vec_y = 0, vec_z = 0\<rparr>,
                          \<lparr>vec_x = 20000, vec_y = 10000, vec_z = 0\<rparr>],
            outlines = [True, True]\<rparr>"
    using 4 by (simp add: spec_ring_def ex_position spec_outline_flag_def spec_on_border_def upt_rec)
  show ?thesis
    unfolding 0 c by (simp add: 1 2 3 5 ex_position c)
qed

section \<open>Point features\<close>

text \<open>
  Claim C7. A point feature with \<open>n\<close> coordinate pairs makes exactly \<open>n\<close> calls of
  \<^verbatim>\<open>processPointFeature\<close>, the \<open>i\<close>-th with the single position of the \<open>i\<close>-th pair, the
  environment of the feature and the level of the tile key.
\<close>

theorem point_feature_calls:
  assumes "type' feature = Point" and "geometry feature = Positions ps"
  shows "\<exists>calls. process_feature extent scale top' left R tile tileKey feature = Some calls \<and>
           length calls = length ps \<and>
           (\<forall>i<length ps. calls ! i =
              processPointFeature (layer tile) [spec_world scale top' left R (ps ! i)]
                (makeEnv tile tileKey feature) (level tileKey))"
  using process_feature_Point[OF assms, of extent scale top' left R tile tileKey] by simp

theorem point_feature_calls_witness:
  "length (the (process_feature 4096 4096 0 0 1 ex_tile ex_key ex_points)) = 3 \<and>
   the (process_feature 4096 4096 0 0 1 ex_tile ex_key ex_points) ! 1 =
     processPointFeature ''water'' [\<lparr>vec_x = 1, vec_y = 1 / 2, vec_z = 0\<rparr>]
       (makeEnv ex_tile ex_key ex_points) 0"
proof -
  have t: "type' ex_points = Point"
    and g: "geometry ex_points = Positions [(0, 0), (4096, 2048), (8192, 8192)]"
    by (simp_all add: ex_points_def ex_feature_def)
  from point_feature_calls[OF t g, of 4096 4096 0 0 1 ex_tile ex_key]
  obtain calls where c: "process_feature 4096 4096 0 0 1 ex_tile ex_key ex_points = Some calls"
    and n: "length calls = length [(0::real, 0::real), (4096, 2048), (8192, 8192)]"
    and e: "\<forall>i<length [(0::real, 0::real), (4096, 2048), (8192, 8192)]. calls ! i =
              processPointFeature (layer ex_tile)
                [spec_world 4096 0 0 1 ([(0, 0), (4096, 2048), (8192, 8192)] ! i)]
                (makeEnv ex_tile ex_key ex_points) (level ex_key)"
    by blast
  have "calls ! 1 = processPointFeature (layer ex_tile)
                [spec_world 4096 0 0 1 ([(0, 0), (4096, 2048), (8192, 8192)] ! 1)]
                (makeEnv ex_tile ex_key ex_points) (level ex_key)"
    using e by simp
  moreover have "layer ex_tile = ''water''" "level ex_key = 0"
    by (simp_all add: ex_tile_def ex_key_def)
  ultimately show ?thesis
    unfolding c using n by (simp add: spec_world_def)
qed

section \<open>Features of unknown type\<close>

text \<open>
  Claim C8. A feature whose geometry type is \<open>Unknown\<close> makes no call and raises no error:
  the calls of the feature are the empty list, and a tile of such features is processed
  with no call at all.
\<close>

theorem unknown_feature_skipped:
  "(type' feature = Unknown \<longrightarrow>
      process_feature extent scale top' left R tile tileKey feature = Some []) \<and>
   ((\<forall>f\<in>set (features tile). type' f = Unknown) \<longrightarrow>
      process lat2tile R' tile tileKey geoBox = Some [])"
proof (intro conjI impI)
  assume "type' feature = Unknown"
  then show "process_feature extent scale top' left R tile tileKey feature = Some []"
    by (rule process_feature_Unknown)
next
  assume u: "\<forall>f\<in>set (features tile). type' f = Unknown"
  have "process_features e sc t l r tile tileKey fs = Some []"
    if "\<forall>f\<in>set fs. type' f = Unknown" for e sc t l r fs
    using that by (induction fs) (simp_all add: process_feature_Unknown)
  then show "process lat2tile R' tile tileKey geoBox = Some []"
    using u by (simp add: process_basis)
qed

theorem unknown_feature_skipped_witness:
  "process_feature 4096 4096 0 0 1 ex_tile ex_key ex_unknown = Some [] \<and>
   process (\<lambda>lat z. 0) 40000 (ex_tile\<lparr>features := [ex_unknown, ex_unknown]\<rparr>) ex_key1 ex_box = Some []"
proof -
  have t: "type' ex_unknown = Unknown" by (simp add: ex_unknown_def ex_feature_def)
  have a: "\<forall>f\<in>set (features (ex_tile\<lparr>features := [ex_unknown, ex_unknown]\<rparr>)). type' f = Unknown"
    by (simp add: t)
  show ?thesis
    using unknown_feature_skipped[where feature = ex_unknown and extent = 4096 and scale = 4096
        and top' = 0 and left = 0 and R = 1 and tile = ex_tile and tileKey = ex_key] t
      unknown_feature_skipped[where tile = "ex_tile\<lparr>features := [ex_unknown, ex_unknown]\<rparr>"
        and ?lat2tile = "\<lambda>lat z. 0" and R' = 40000 and tileKey = ex_key1 and geoBox = ex_box] a
    by blast
qed

section \<open>Polygons: one outline flag per position\<close>

text \<open>
  Claim C10. Every ring of an emitted polygon has as many positions as outline flags, and as
  many as the input ring has vertices; the emitted polygon has all the rings of the input,
  also those with fewer than three vertices.
\<close>

theorem ring_lengths:
  assumes "type' feature = Polygon" and "geometry feature = Paths os"
    and "process_feature 4096 scale top' left R tile tileKey feature = Some calls"
    and "processPolygonFeature name polygons env lvl \<in> set calls"
    and "polygon \<in> set polygons"
  shows "length (rings polygon) = length os \<and>
         (\<forall>j<length os.
            length (positions (rings polygon ! j)) = length (os ! j) \<and>
            length (outlines (rings polygon ! j)) = length (os ! j))"
proof -
  have "rings polygon = map (spec_ring 4096 scale top' left R) os"
    using assms(3,4,5) process_feature_Polygon[OF assms(1,2), of 4096 scale top' left R tile tileKey]
    by (cases "spec_discarded 4096 os") auto
  then show ?thesis by (simp add: spec_ring_def)
qed

theorem ring_lengths_witness:
  "process_feature 4096 4096 0 0 1 ex_tile ex_key ex_sliver =
     Some [processPolygonFeature ''water''
             [\<lparr>rings = [spec_ring 4096 4096 0 0 1 [(0, 0), (4096, 2048)]]\<rparr>]
             (makeEnv ex_tile ex_key ex_sliver) 0] \<and>
   length (rings \<lparr>rings = [spec_ring 4096 4096 0 0 1 [(0, 0), (4096, 2048)]]\<rparr>) = 1 \<and>
   length (positions (spec_ring 4096 4096 0 0 1 [(0, 0), (4096, 2048)])) = 2 \<and>
   length (outlines (spec_ring 4096 4096 0 0 1 [(0, 0), (4096, 2048)])) = 2"
proof -
  let ?P = "\<lparr>rings = [spec_ring 4096 4096 0 0 1 [(0, 0), (4096, 2048)]]\<rparr>"
  have t: "type' ex_sliver = Polygon" and g: "geometry ex_sliver = Paths [[(0, 0), (4096, 2048)]]"
    by (simp_all add: ex_sliver_def ex_feature_def)
  have p: "process_feature 4096 4096 0 0 1 ex_tile ex_key ex_sliver =
     Some [processPolygonFeature ''water'' [?P] (makeEnv ex_tile ex_key ex_sliver) 0]"
    by (simp add: process_feature_Polygon[OF t g] spec_discarded_def ex_tile_def ex_key_def)
  have m: "processPolygonFeature ''water'' [?P] (makeEnv ex_tile ex_key ex_sliver) 0
           \<in> set [processPolygonFeature ''water'' [?P] (makeEnv ex_tile ex_key ex_sliver) 0]"
    and n: "?P \<in> set [?P]" by simp_all
  from ring_lengths[OF t g p m n]
  have "length (rings ?P) = length [[(0::real, 0::real), (4096, 2048)]] \<and>
        length (positions (rings ?P ! 0)) = length ([[(0::real, 0::real), (4096, 2048)]] ! 0) \<and>
        length (outlines (rings ?P ! 0)) = length ([[(0::real, 0::real), (4096, 2048)]] ! 0)"
    by simp
  then show ?thesis using p by simp
qed

section \<open>The format test\<close>

text \<open>
  Claim C6. \<^verbatim>\<open>canProcess\<close> is false for a raw buffer and for an object that lacks one of
  \<^verbatim>\<open>features\<close>, \<^verbatim>\<open>source\<close>, \<^verbatim>\<open>x\<close>, \<^verbatim>\<open>y\<close>, \<^verbatim>\<open>z\<close>, and true for an object that has
  them all. It reads its argument and nothing else, and it has a value on every input.
\<close>

theorem canProcess_cases:
  "canProcess (ArrayBufferLike b) = False \<and>
   ((\<exists>name\<in>set [''features'', ''source'', ''x'', ''y'', ''z'']. obj name = None) \<longrightarrow>
      canProcess (Object obj) = False) \<and>
   ((\<forall>name\<in>set [''features'', ''source'', ''x'', ''y'', ''z'']. obj name \<noteq> None) \<longrightarrow>
      canProcess (Object obj) = True)"
proof (intro conjI impI)
  show "canProcess (ArrayBufferLike b) = False"
    by (simp add: canProcess_def)
next
  assume "\<exists>name\<in>set [''features'', ''source'', ''x'', ''y'', ''z'']. obj name = None"
  then have "obj ''features'' = None \<or> obj ''source'' = None \<or> obj ''x'' = None \<or>
             obj ''y'' = None \<or> obj ''z'' = None"
    by auto
  then show "canProcess (Object obj) = False"
    by (simp add: canProcess_def)
next
  assume "\<forall>name\<in>set [''features'', ''source'', ''x'', ''y'', ''z'']. obj name \<noteq> None"
  then have "\<not> (obj ''features'' = None \<or> obj ''source'' = None \<or> obj ''x'' = None \<or>
                obj ''y'' = None \<or> obj ''z'' = None)"
    by simp
  then show "canProcess (Object obj) = True"
    by (simp add: canProcess_def)
qed

theorem canProcess_cases_witness:
  "canProcess ex_buffer = False \<and>
   canProcess (Object (ex_object(''x'' := None)) :: (nat list, nat) TileLikeData) = False \<and>
   canProcess (Object ex_object :: (nat list, nat) TileLikeData) = True"
proof -
  have a: "\<exists>name\<in>set [''features'', ''source'', ''x'', ''y'', ''z''].
             (ex_object(''x'' := None)) name = None"
    by simp
  have b: "\<forall>name\<in>set [''features'', ''source'', ''x'', ''y'', ''z'']. ex_object name \<noteq> None"
    by (simp add: ex_object_def)
  show ?thesis
    using canProcess_cases[of "[26, 3]" "ex_object(''x'' := None)"] a
          canProcess_cases[of "[26, 3]" ex_object] b
    unfolding ex_buffer_def by blast
qed

section \<open>The planar projection\<close>

subsection \<open>Error of the rounded round trip\<close>

lemma roundtrip_error:
  fixes x d r u eta :: real
  assumes mul: "\<And>a b. \<bar>a * b\<bar> \<le> 1000 \<Longrightarrow> \<bar>mul a b - a * b\<bar> \<le> u * \<bar>a * b\<bar> + eta"
    and u: "0 \<le> u" "u \<le> 1 / 100"
    and eta: "0 \<le> eta" "eta \<le> 1"
    and dr: "\<bar>d * r - 1\<bar> \<le> 7 * u"
    and d: "\<bar>d\<bar> \<le> 1 / 40"
    and r: "\<bar>r\<bar> \<le> 100"
    and x: "\<bar>x\<bar> \<le> 180"
  shows "\<bar>mul (mul x d) r - x\<bar> \<le> 10 * u * \<bar>x\<bar> + 120 * eta"
proof -
  let ?a = "mul x d"
  have xd: "\<bar>x * d\<bar> \<le> 9 / 2"
  proof -
    have "\<bar>x\<bar> * \<bar>d\<bar> \<le> 180 * (1 / 40)" using x d by (intro mult_mono) simp_all
    then show ?thesis by (simp add: abs_mult)
  qed
  have 1: "\<bar>?a - x * d\<bar> \<le> u * \<bar>x * d\<bar> + eta" using xd by (intro mul) simp
  have a: "\<bar>?a\<bar> \<le> 6"
  proof -
    have "u * \<bar>x * d\<bar> \<le> (1 / 100) * (9 / 2)" using u xd by (intro mult_mono) simp_all
    then show ?thesis using 1 xd eta by linarith
  qed
  have "\<bar>?a\<bar> * \<bar>r\<bar> \<le> 6 * 100" using a r by (intro mult_mono) simp_all
  then have "\<bar>?a * r\<bar> \<le> 1000" by (simp add: abs_mult)
  then have 2: "\<bar>mul ?a r - ?a * r\<bar> \<le> u * \<bar>?a * r\<bar> + eta" by (rule mul)
  have xdr: "\<bar>x * d * r\<bar> \<le> (1 + 7 * u) * \<bar>x\<bar>"
  proof -
    have "\<bar>d * r\<bar> \<le> 1 + 7 * u" using dr by linarith
    then have "\<bar>x\<bar> * \<bar>d * r\<bar> \<le> \<bar>x\<bar> * (1 + 7 * u)"
      by (intro mult_left_mono) simp_all
    then show ?thesis by (simp add: abs_mult ac_simps)
  qed
  have 3: "\<bar>?a * r - x * d * r\<bar> \<le> u * \<bar>x * d * r\<bar> + 100 * eta"
  proof -
    have "\<bar>?a * r - x * d * r\<bar> = \<bar>?a - x * d\<bar> * \<bar>r\<bar>"
      by (simp add: abs_mult[symmetric] algebra_simps)
    also have "\<dots> \<le> (u * \<bar>x * d\<bar> + eta) * \<bar>r\<bar>"
      using 1 by (intro mult_right_mono) simp_all
    also have "\<dots> = u * \<bar>x * d * r\<bar> + eta * \<bar>r\<bar>" by (simp add: abs_mult algebra_simps)
    also have "\<dots> \<le> u * \<bar>x * d * r\<bar> + eta * 100"
      using r eta(1) by (simp add: mult_left_mono)
    finally show ?thesis by simp
  qed
  have ar: "\<bar>?a * r\<bar> \<le> (1 + u) * \<bar>x * d * r\<bar> + 100 * eta"
  proof -
    have "\<bar>?a * r\<bar> \<le> \<bar>?a * r - x * d * r\<bar> + \<bar>x * d * r\<bar>" by linarith
    then show ?thesis using 3 by (simp add: algebra_simps)
  qed
  have 4: "\<bar>x * d * r - x\<bar> \<le> 7 * u * \<bar>x\<bar>"
  proof -
    have "\<bar>x * d * r - x\<bar> = \<bar>x\<bar> * \<bar>d * r - 1\<bar>"
      by (simp add: abs_mult[symmetric] algebra_simps)
    also have "\<dots> \<le> \<bar>x\<bar> * (7 * u)" using dr by (intro mult_left_mono) simp_all
    finally show ?thesis by (simp add: mult.commute)
  qed
  have 5: "u * \<bar>?a * r\<bar> \<le> u * ((1 + u) * \<bar>x * d * r\<bar>) + eta"
  proof -
    have "u * \<bar>?a * r\<bar> \<le> u * ((1 + u) * \<bar>x * d * r\<bar> + 100 * eta)"
      using ar u(1) by (intro mult_left_mono) simp_all
    moreover have "u * (100 * eta) \<le> (1 / 100) * (100 * eta)"
      using u eta(1) by (intro mult_right_mono) simp_all
    ultimately show ?thesis using eta(1) by (simp add: algebra_simps)
  qed
  have "\<bar>mul ?a r - x\<bar> \<le> \<bar>mul ?a r - ?a * r\<bar> + \<bar>?a * r - x * d * r\<bar> + \<bar>x * d * r - x\<bar>"
    by linarith
  also have "\<dots> \<le> u * ((1 + u) * \<bar>x * d * r\<bar>) + u * \<bar>x * d * r\<bar> + 7 * u * \<bar>x\<bar> + 102 * eta"
    using 2 3 4 5 by linarith
  also have "\<dots> = u * (2 + u) * \<bar>x * d * r\<bar> + 7 * u * \<bar>x\<bar> + 102 * eta"
    by (simp add: algebra_simps)
  also have "\<dots> \<le> u * (2 + u) * ((1 + 7 * u) * \<bar>x\<bar>) + 7 * u * \<bar>x\<bar> + 102 * eta"
  proof -
    have "0 \<le> u * (2 + u)" using u(1) by simp
    then have "u * (2 + u) * \<bar>x * d * r\<bar> \<le> u * (2 + u) * ((1 + 7 * u) * \<bar>x\<bar>)"
      using xdr by (intro mult_left_mono) simp_all
    then show ?thesis by linarith
  qed
  also have "\<dots> = u * ((2 + u) * (1 + 7 * u) + 7) * \<bar>x\<bar> + 102 * eta"
    by (simp add: algebra_simps)
  also have "\<dots> \<le> u * 10 * \<bar>x\<bar> + 120 * eta"
  proof -
    have "(2 + u) * (1 + 7 * u) \<le> (2 + 1/100) * (1 + 7 * (1/100))"
      using u by (intro mult_mono) simp_all
    then have "(2 + u) * (1 + 7 * u) + 7 \<le> 10" by simp
    then have "u * ((2 + u) * (1 + 7 * u) + 7) \<le> u * 10"
      using u(1) by (intro mult_left_mono) simp_all
    then have "u * ((2 + u) * (1 + 7 * u) + 7) * \<bar>x\<bar> \<le> u * 10 * \<bar>x\<bar>"
      by (intro mult_right_mono) simp_all
    then show ?thesis using eta(1) by linarith
  qed
  finally show ?thesis by (simp add: mult.commute mult.left_commute)
qed

lemma product_near_one:
  fixes c d r u :: real
  assumes c: "0 < c" and u: "0 \<le> u" "u \<le> 1 / 100"
    and d: "\<bar>d - c\<bar> \<le> 3 * u * c" and r: "\<bar>r - 1 / c\<bar> \<le> 3 * u * (1 / c)"
  shows "\<bar>d * r - 1\<bar> \<le> 7 * u"
proof -
  define e1 where "e1 = d / c - 1"
  define e2 where "e2 = r * c - 1"
  have d': "d = c * (1 + e1)" and r': "r = (1 + e2) / c"
    using c by (simp_all add: e1_def e2_def field_simps)
  have "\<bar>e1\<bar> = \<bar>d - c\<bar> / c" using c by (simp add: e1_def field_simps abs_if)
  also have "\<dots> \<le> 3 * u" using d c by (simp add: field_simps)
  finally have e1: "\<bar>e1\<bar> \<le> 3 * u" .
  have "\<bar>e2\<bar> = \<bar>r - 1 / c\<bar> * c" using c by (simp add: e2_def field_simps abs_if)
  also have "\<dots> \<le> 3 * u" using r c by (simp add: field_simps)
  finally have e2: "\<bar>e2\<bar> \<le> 3 * u" .
  define q where "q = e1 * e2"
  have "\<bar>q\<bar> \<le> (3 * u) * (3 * u)"
    unfolding q_def abs_mult using e1 e2 by (intro mult_mono) simp_all
  moreover have "(3 * u) * (3 * u) \<le> (3 * u) * (3 * (1 / 100))"
    using u by (intro mult_left_mono) simp_all
  ultimately have q: "\<bar>q\<bar> \<le> 9 / 100 * u" by simp
  have "d * r - 1 = e1 + e2 + q" using c by (simp add: d' r' q_def field_simps)
  then show ?thesis using e1 e2 q u(1) by linarith
qed

lemma unit_bounds:
  "0 \<le> unit_roundoff" "unit_roundoff \<le> 1 / 100" "unit_roundoff \<le> 1 / 10 ^ 15"
  "0 \<le> underflow_unit" "underflow_unit \<le> 1" "underflow_unit \<le> 1 / 10 ^ 15"
  by (simp_all add: unit_roundoff_def underflow_unit_def)

lemma rounded_angle:
  assumes mul: "rounded_mul mul"
    and d: "rounded_const deg2rad (pi / 180)" and r: "rounded_const rad2deg (180 / pi)"
    and x: "\<bar>x\<bar> \<le> 180"
  shows "\<bar>mul (mul x deg2rad) rad2deg - x\<bar> * (pi / 180) \<le> 1 / 10 ^ 9"
proof -
  let ?u = unit_roundoff
  let ?c = "pi / 180"
  have c: "0 < ?c" "?c \<le> 1 / 45" using pi_gt_zero pi_less_4 by simp_all
  define k where "k = 1 / ?c"
  have k: "0 < k" "k \<le> 90" "180 / pi = k"
    using pi_gt_zero pi_ge_two by (simp_all add: k_def field_simps)
  have m: "\<And>a b. \<bar>a * b\<bar> \<le> 1000 \<Longrightarrow> \<bar>mul a b - a * b\<bar> \<le> ?u * \<bar>a * b\<bar> + underflow_unit"
    using mul by (simp add: rounded_mul_def)
  have d': "\<bar>deg2rad - ?c\<bar> \<le> 3 * ?u * ?c" using d by (simp add: rounded_const_def)
  have r': "\<bar>rad2deg - k\<bar> \<le> 3 * ?u * k" using r by (simp only: rounded_const_def k(3))
  have dr: "\<bar>deg2rad * rad2deg - 1\<bar> \<le> 7 * ?u"
    using product_near_one[OF c(1) unit_bounds(1,2) d'] r' by (simp only: k_def)
  have "3 * ?u * ?c \<le> 3 * (1 / 100) * (1 / 45)"
    using unit_bounds(1,2) c by (intro mult_mono) simp_all
  then have db: "\<bar>deg2rad\<bar> \<le> 1 / 40" using d' c by linarith
  have "3 * ?u * k \<le> 3 * (1 / 100) * 90"
    using unit_bounds(1,2) k by (intro mult_mono) simp_all
  then have rb: "\<bar>rad2deg\<bar> \<le> 100" using r' k by linarith
  have e: "\<bar>mul (mul x deg2rad) rad2deg - x\<bar> \<le> 10 * ?u * \<bar>x\<bar> + 120 * underflow_unit"
    by (rule roundtrip_error[OF m unit_bounds(1,2,4,5) dr db rb x])
  have "10 * ?u * \<bar>x\<bar> \<le> 10 * (1 / 10 ^ 15) * 180"
    using unit_bounds(1,3) x by (intro mult_mono) simp_all
  then have "\<bar>mul (mul x deg2rad) rad2deg - x\<bar> \<le> 1 / 10 ^ 11"
    using e unit_bounds(6) by simp
  then have "\<bar>mul (mul x deg2rad) rad2deg - x\<bar> * ?c \<le> (1 / 10 ^ 11) * (1 / 45)"
    using c by (intro mult_mono) simp_all
  then show ?thesis by simp
qed

lemma rounded_exact:
  "projectPoint p result = projectPoint_rounded (*) DEG2RAD p"
  "unprojectPoint w = unprojectPoint_rounded (*) (180 / pi) w"
  by (cases result)
     (simp_all add: projectPoint_def projectPoint_rounded_def unprojectPoint_def
        unprojectPoint_rounded_def fromRadians_def)

lemma rounded_mul_ex_mul: "rounded_mul ex_mul"
  using unit_bounds(1,4) by (simp add: rounded_mul_def ex_mul_def algebra_simps abs_mult)

lemma rounded_const_exact: "0 \<le> v \<Longrightarrow> rounded_const v v"
  using unit_bounds(1) by (simp add: rounded_const_def)

subsection \<open>The round trip\<close>

text \<open>
  Claim C4. For a geo point with longitude in \<open>(-180, 180)\<close> and latitude in \<open>(-90, 90)\<close>,
  \<^verbatim>\<open>projectPoint\<close> gives \<open>(longitude * pi / 180, latitude * pi / 180, altitude or 0)\<close> and
  \<^verbatim>\<open>unprojectPoint\<close> inverts it: in exact arithmetic the round trip gives the same longitude
  and latitude and the altitude \<open>altitude or 0\<close>; with the multiplications and the two
  constants rounded as doubles are, longitude and latitude come back within \<open>1e-9\<close> radians.
\<close>

theorem project_unproject_roundtrip:
  assumes "-180 < longitude p" and "longitude p < 180"
    and "-90 < latitude p" and "latitude p < 90"
  shows "projectPoint p result =
           \<lparr>vec_x = longitude p * pi / 180, vec_y = latitude p * pi / 180,
            vec_z = (case altitude p of None \<Rightarrow> 0 | Some a \<Rightarrow> a)\<rparr> \<and>
         unprojectPoint (projectPoint p result) =
           p\<lparr>altitude := Some (case altitude p of None \<Rightarrow> 0 | Some a \<Rightarrow> a)\<rparr> \<and>
         (rounded_mul mul \<and> rounded_const deg2rad (pi / 180) \<and>
          rounded_const rad2deg (180 / pi) \<longrightarrow>
            \<bar>longitude (unprojectPoint_rounded mul rad2deg (projectPoint_rounded mul deg2rad p))
               - longitude p\<bar> * (pi / 180) \<le> 1 / 10 ^ 9 \<and>
            \<bar>latitude (unprojectPoint_rounded mul rad2deg (projectPoint_rounded mul deg2rad p))
               - latitude p\<bar> * (pi / 180) \<le> 1 / 10 ^ 9 \<and>
            altitude (unprojectPoint_rounded mul rad2deg (projectPoint_rounded mul deg2rad p)) =
              Some (case altitude p of None \<Rightarrow> 0 | Some a \<Rightarrow> a))"
proof (intro conjI impI)
  show pp: "projectPoint p result =
           \<lparr>vec_x = longitude p * pi / 180, vec_y = latitude p * pi / 180,
            vec_z = (case altitude p of None \<Rightarrow> 0 | Some a \<Rightarrow> a)\<rparr>"
    by (cases result) (simp_all add: projectPoint_def DEG2RAD_def)
  show "unprojectPoint (projectPoint p result) =
           p\<lparr>altitude := Some (case altitude p of None \<Rightarrow> 0 | Some a \<Rightarrow> a)\<rparr>"
    unfolding pp by (simp add: unprojectPoint_def fromRadians_def)
next
  assume a: "rounded_mul mul \<and> rounded_const deg2rad (pi / 180) \<and>
             rounded_const rad2deg (180 / pi)"
  have x: "\<bar>longitude p\<bar> \<le> 180" "\<bar>latitude p\<bar> \<le> 180" using assms by simp_all
  from a have r: "\<And>x. \<bar>x\<bar> \<le> 180 \<Longrightarrow>
      \<bar>mul (mul x deg2rad) rad2deg - x\<bar> * (pi / 180) \<le> 1 / 10 ^ 9"
    by (intro rounded_angle) simp_all
  show "\<bar>longitude (unprojectPoint_rounded mul rad2deg (projectPoint_rounded mul deg2rad p))
               - longitude p\<bar> * (pi / 180) \<le> 1 / 10 ^ 9"
    using r[OF x(1)] by (simp add: unprojectPoint_rounded_def projectPoint_rounded_def)
  show "\<bar>latitude (unprojectPoint_rounded mul rad2deg (projectPoint_rounded mul deg2rad p))
               - latitude p\<bar> * (pi / 180) \<le> 1 / 10 ^ 9"
    using r[OF x(2)] by (simp add: unprojectPoint_rounded_def projectPoint_rounded_def)
  show "altitude (unprojectPoint_rounded mul rad2deg (projectPoint_rounded mul deg2rad p)) =
              Some (case altitude p of None \<Rightarrow> 0 | Some a \<Rightarrow> a)"
    by (simp add: unprojectPoint_rounded_def projectPoint_rounded_def)
qed

theorem project_unproject_roundtrip_witness:
  "unprojectPoint (projectPoint ex_geo None) =
     \<lparr>latitude = 52, longitude = 13, altitude = Some 0\<rparr> \<and>
   \<bar>longitude (unprojectPoint_rounded ex_mul (180 / pi)
                 (projectPoint_rounded ex_mul (pi / 180) ex_geo)) - 13\<bar> * (pi / 180)
     \<le> 1 / 10 ^ 9 \<and>
   \<bar>latitude (unprojectPoint_rounded ex_mul (180 / pi)
                (projectPoint_rounded ex_mul (pi / 180) ex_geo)) - 52\<bar> * (pi / 180)
     \<le> 1 / 10 ^ 9"
proof -
  have g: "-180 < longitude ex_geo" "longitude ex_geo < 180"
       "-90 < latitude ex_geo" "latitude ex_geo < 90"
    by (simp_all add: ex_geo_def)
  have h: "rounded_mul ex_mul \<and> rounded_const (pi / 180) (pi / 180) \<and>
           rounded_const (180 / pi) (180 / pi)"
    by (simp add: rounded_mul_ex_mul rounded_const_exact)
  note t = project_unproject_roundtrip[OF g, of None ex_mul "pi / 180" "180 / pi"]
  have 1: "unprojectPoint (projectPoint ex_geo None) =
          ex_geo\<lparr>altitude := Some (case altitude ex_geo of None \<Rightarrow> 0 | Some a \<Rightarrow> a)\<rparr>"
    using t by blast
  have 2: "\<bar>longitude (unprojectPoint_rounded ex_mul (180 / pi)
                 (projectPoint_rounded ex_mul (pi / 180) ex_geo)) - longitude ex_geo\<bar> * (pi / 180)
     \<le> 1 / 10 ^ 9"
    and 3: "\<bar>latitude (unprojectPoint_rounded ex_mul (180 / pi)
                (projectPoint_rounded ex_mul (pi / 180) ex_geo)) - latitude ex_geo\<bar> * (pi / 180)
     \<le> 1 / 10 ^ 9"
    using t h by blast+
  have l: "longitude ex_geo = 13" "latitude ex_geo = 52" by (simp_all add: ex_geo_def)
  show ?thesis
    using 1 2 3 unfolding l by (simp add: ex_geo_def)
qed

subsection \<open>Projected boxes\<close>

text \<open>
  A box whose two altitudes are equal, projected to an axis-aligned box: \<open>min.z = max.z\<close>,
  so the z half-extent is 0.
\<close>

theorem projectBox_flat_counterexample:
  "spec_z_half_extent (projectBox ex_box3 ex_flat_box None) = 0 \<and>
   spec_z_half_extent (projectBox ex_box3 ex_flat_box (Some (Box3 ex_box3))) = 0"
  by (simp add: projectBox_def projectPoint_def ex_flat_box_def Let_def)

text \<open>
  Claim C5, as the code has it. When the caller asks for an oriented box, the z half-extent
  is \<open>max(Number.EPSILON, (max.z - min.z) / 2)\<close>, which is at least \<open>Number.EPSILON\<close> and so
  never 0. When the caller asks for an axis-aligned box, or passes no result, \<open>min.z\<close> and
  \<open>max.z\<close> are the two altitudes as projected, with no clamp.
\<close>

theorem projectBox_z_half_extent:
  "0 < Number_EPSILON \<and>
   Number_EPSILON \<le> spec_z_half_extent (projectBox newEmptyBox3 geoBox (Some (OrientedBox3 ob))) \<and>
   spec_z_half_extent (projectBox newEmptyBox3 geoBox (Some (OrientedBox3 ob))) =
     max Number_EPSILON
       (((case maxAltitude geoBox of None \<Rightarrow> 0 | Some a \<Rightarrow> a) -
         (case minAltitude geoBox of None \<Rightarrow> 0 | Some a \<Rightarrow> a)) * 0.5) \<and>
   spec_z_half_extent (projectBox newEmptyBox3 geoBox (Some (Box3 b))) =
     ((case maxAltitude geoBox of None \<Rightarrow> 0 | Some a \<Rightarrow> a) -
      (case minAltitude geoBox of None \<Rightarrow> 0 | Some a \<Rightarrow> a)) * 0.5 \<and>
   spec_z_half_extent (projectBox newEmptyBox3 geoBox None) =
     ((case maxAltitude geoBox of None \<Rightarrow> 0 | Some a \<Rightarrow> a) -
      (case minAltitude geoBox of None \<Rightarrow> 0 | Some a \<Rightarrow> a)) * 0.5"
proof -
  let ?lo = "case minAltitude geoBox of None \<Rightarrow> 0 | Some a \<Rightarrow> a"
  let ?hi = "case maxAltitude geoBox of None \<Rightarrow> 0 | Some a \<Rightarrow> a"
  have eps: "0 < Number_EPSILON"
    by (simp add: Number_EPSILON_def)
  have oriented:
    "spec_z_half_extent (projectBox newEmptyBox3 geoBox (Some (OrientedBox3 ob))) =
       max Number_EPSILON ((?hi - ?lo) * 0.5)"
    by (simp add: projectBox_def projectPoint_def Let_def Math_max_def)
  have aligned:
    "spec_z_half_extent (projectBox newEmptyBox3 geoBox (Some (Box3 b))) = (?hi - ?lo) * 0.5"
    by (simp add: projectBox_def projectPoint_def Let_def)
  have default:
    "spec_z_half_extent (projectBox newEmptyBox3 geoBox None) = (?hi - ?lo) * 0.5"
    by (simp add: projectBox_def projectPoint_def Let_def)
  have "Number_EPSILON \<le> max Number_EPSILON ((?hi - ?lo) * 0.5)"
    by simp
  then show ?thesis
    using eps by (simp only: oriented aligned default)
qed

theorem projectBox_z_half_extent_witness:
  "spec_z_half_extent (projectBox ex_box3 ex_flat_box (Some (OrientedBox3 ex_obox))) =
     1 / 4503599627370496"
  using projectBox_z_half_extent[of ex_box3 ex_flat_box ex_obox ex_box3]
  by (simp add: ex_flat_box_def Number_EPSILON_def)

subsection \<open>Points scaled to the surface\<close>

text \<open>
  Claim C9. \<^verbatim>\<open>scalePointToSurface\<close> returns the reference it was given; in the store after
  the call the vector at that reference has \<open>z = 0\<close> and its \<open>x\<close> and \<open>y\<close> as before, and
  every other vector is untouched.
\<close>

theorem scalePointToSurface_effect:
  "fst (scalePointToSurface h worldPoint) = worldPoint \<and>
   vec_z (snd (scalePointToSurface h worldPoint) worldPoint) = 0 \<and>
   vec_x (snd (scalePointToSurface h worldPoint) worldPoint) = vec_x (h worldPoint) \<and>
   vec_y (snd (scalePointToSurface h worldPoint) worldPoint) = vec_y (h worldPoint) \<and>
   (\<forall>r. r \<noteq> worldPoint \<longrightarrow> snd (scalePointToSurface h worldPoint) r = h r)"
proof -
  let ?h' = "h(worldPoint := (h worldPoint)\<lparr>vec_z := 0\<rparr>)"
  have result: "scalePointToSurface h worldPoint = (worldPoint, ?h')"
    by (simp add: scalePointToSurface_def)
  have written: "?h' worldPoint = (h worldPoint)\<lparr>vec_z := 0\<rparr>"
    by simp
  have others: "\<forall>r. r \<noteq> worldPoint \<longrightarrow> ?h' r = h r"
    by simp
  show ?thesis
    unfolding result fst_conv snd_conv written using others by simp
qed

theorem scalePointToSurface_effect_witness:
  "scalePointToSurface ex_store 3 = (3, ex_store(3 := \<lparr>vec_x = 7, vec_y = 8, vec_z = 0\<rparr>)) \<and>
   snd (scalePointToSurface ex_store 3) 3 = \<lparr>vec_x = 7, vec_y = 8, vec_z = 0\<rparr> \<and>
   snd (scalePointToSurface ex_store 3) 4 = \<lparr>vec_x = 7, vec_y = 8, vec_z = 9\<rparr>"
proof -
  have "(4::nat) \<noteq> 3" by simp
  with scalePointToSurface_effect[of ex_store 3]
  have "snd (scalePointToSurface ex_store 3) 4 = ex_store 4" by blast
  moreover have "scalePointToSurface ex_store 3 =
      (3, ex_store(3 := \<lparr>vec_x = 7, vec_y = 8, vec_z = 0\<rparr>))"
    by (simp add: scalePointToSurface_def ex_store_def ex_vec_def)
  ultimately show ?thesis by (simp add: ex_store_def ex_vec_def)
qed

end
